theory Spec2Isabelle
  imports Main
begin

section \<open>Python values, errors and dictionaries\<close>

text \<open>
  The exceptions the code of \<^verbatim>\<open>repohealth/twitter.py\<close> can raise are values.
  \<open>NotModelled\<close> is not a Python exception: it marks an input on which Python has a
  defined behaviour that this development does not describe (format conversions and
  format specifications, attribute and index access inside a placeholder, regular
  expression syntax beyond the one the templates produce).  No theorem below draws a
  conclusion about the program from a \<open>NotModelled\<close> outcome.
\<close>

datatype pyerror =
    KeyError string
  | TypeError
  | ValueError
  | AttributeError
  | ReError
  | NotModelled

datatype pyval =
    PStr string
  | PInt int
  | PList "pyval list"
  | PDict "(string \<times> pyval) list"

text \<open>A dict is an association list in insertion order; a context maps field names to
  values, the pool maps a uuid to the context of one repository.\<close>

type_synonym pycontext = "(string \<times> pyval) list"
type_synonym pool = "(string \<times> pycontext) list"

definition and_then :: "pyerror + 'a \<Rightarrow> ('a \<Rightarrow> pyerror + 'b) \<Rightarrow> pyerror + 'b" where
  "and_then r f = (case r of Inl e \<Rightarrow> Inl e | Inr x \<Rightarrow> f x)"

text \<open>\<^verbatim>\<open>d[k]\<close> on a dict, \<^verbatim>\<open>d[k] = v\<close> (an existing key keeps its place, a new one
  goes last) and \<^verbatim>\<open>d.pop(k)\<close>.\<close>

definition dict_get :: "(string \<times> 'v) list \<Rightarrow> string \<Rightarrow> pyerror + 'v" where
  "dict_get d k = (case map_of d k of None \<Rightarrow> Inl (KeyError k) | Some v \<Rightarrow> Inr v)"

fun dict_set :: "(string \<times> 'v) list \<Rightarrow> string \<Rightarrow> 'v \<Rightarrow> (string \<times> 'v) list" where
  "dict_set [] k v = [(k, v)]"
| "dict_set ((k', v') # d) k v = (if k' = k then (k, v) # d else (k', v') # dict_set d k v)"

definition dict_pop :: "(string \<times> 'v) list \<Rightarrow> string \<Rightarrow> (string \<times> 'v) list" where
  "dict_pop d k = filter (\<lambda>kv. fst kv \<noteq> k) d"

definition keys :: "(string \<times> 'v) list \<Rightarrow> string list" where
  "keys d = map fst d"

text \<open>\<^verbatim>\<open>v[k]\<close> with a string key on an arbitrary value: only a dict has string keys.\<close>

fun subscript :: "pyval \<Rightarrow> string \<Rightarrow> pyerror + pyval" where
  "subscript (PDict d) k = dict_get d k"
| "subscript (PStr s) k = Inl TypeError"
| "subscript (PInt i) k = Inl TypeError"
| "subscript (PList xs) k = Inl TypeError"

section \<open>Decimal representation of integers\<close>

definition digit_char :: "nat \<Rightarrow> char" where
  "digit_char d = ''0123456789'' ! d"

fun str_nat :: "nat \<Rightarrow> string" where
  "str_nat n = (if n < 10 then [digit_char n] else str_nat (n div 10) @ [digit_char (n mod 10)])"

declare str_nat.simps [simp del]

definition str_int :: "int \<Rightarrow> string" where
  "str_int i = (if i < 0 then CHR ''-'' # str_nat (nat (- i)) else str_nat (nat i))"

text \<open>\<^verbatim>\<open>str(v)\<close>, which is what \<^verbatim>\<open>format(v, '')\<close> returns.  The \<^verbatim>\<open>repr\<close> of lists and
  dicts is not modelled.\<close>

fun py_str :: "pyval \<Rightarrow> pyerror + string" where
  "py_str (PStr s) = Inr s"
| "py_str (PInt i) = Inr (str_int i)"
| "py_str (PList xs) = Inl NotModelled"
| "py_str (PDict d) = Inl NotModelled"

section \<open>Rounding to two significant figures\<close>

text \<open>\<^verbatim>\<open>int(floor(log10(x)))\<close> for a positive integer: the number of decimal digits
  less one.  The floating-point logarithm is taken as exact.\<close>

fun ilog10 :: "nat \<Rightarrow> nat" where
  "ilog10 n = (if n < 10 then 0 else Suc (ilog10 (n div 10)))"

declare ilog10.simps [simp del]

text \<open>\<^verbatim>\<open>round(x, ndigits)\<close> on an \<^verbatim>\<open>int\<close>: the integer itself when \<^verbatim>\<open>ndigits >= 0\<close>,
  otherwise the nearest multiple of \<^verbatim>\<open>10 ** -ndigits\<close>, a tie going to the even
  quotient.\<close>

definition divmod_near :: "int \<Rightarrow> int \<Rightarrow> int \<times> int" where
  "divmod_near a b =
     (let q = a div b; r = a mod b
      in if 2 * r > b \<or> (2 * r = b \<and> odd q) then (q + 1, r - b) else (q, r))"

definition py_round :: "int \<Rightarrow> int \<Rightarrow> int" where
  "py_round x ndigits =
     (if ndigits \<ge> 0 then x else x - snd (divmod_near x (10 ^ nat (- ndigits))))"

definition round_sig :: "int \<Rightarrow> int \<Rightarrow> pyerror + int" where
  "round_sig x sig =
     (if x \<le> 0 then Inl ValueError
      else Inr (py_round x (sig - int (ilog10 (nat x)) - 1)))"

definition round_with_direction_string :: "int \<Rightarrow> pyerror + (int \<times> string)" where
  "round_with_direction_string x =
     and_then (round_sig x 2) (\<lambda>rounded.
       Inr (rounded,
            if rounded < x then ''less than''
            else if rounded > x then ''more than''
            else ''same as''))"

text \<open>The two statistics read from the data payload.\<close>

definition payload_stat :: "string \<Rightarrow> pycontext \<Rightarrow> pyerror + pyval" where
  "payload_stat name context =
     and_then (dict_get context ''github'') (\<lambda>g.
     and_then (subscript g ''repo'') (\<lambda>r. subscript r name))"

definition stargazers :: "pycontext \<Rightarrow> pyerror + pyval" where
  "stargazers = payload_stat ''stargazers_count''"

definition forks :: "pycontext \<Rightarrow> pyerror + pyval" where
  "forks = payload_stat ''forks_count''"

text \<open>The dict literal \<^verbatim>\<open>over_nearly_or_exactly\<close> of \<^verbatim>\<open>updated_context\<close>.\<close>

definition over_nearly_or_exactly :: "(string \<times> string) list" where
  "over_nearly_or_exactly =
     [(''less than'', ''over ''), (''more than'', ''nearly ''), (''same as'', '''')]"

text \<open>The body shared by \<^verbatim>\<open>LotsOfStars.updated_context\<close> and
  \<^verbatim>\<open>LotsOfForks.updated_context\<close>: the statistic, the key of the rounded number and
  the key of the qualifier differ.  \<^verbatim>\<open>log10\<close> of a string, a list or a dict is a
  \<^verbatim>\<open>TypeError\<close>.\<close>

definition qualified_context ::
  "(pycontext \<Rightarrow> pyerror + pyval) \<Rightarrow> string \<Rightarrow> string \<Rightarrow> pycontext \<Rightarrow> pyerror + pycontext" where
  "qualified_context stat number_key qualifier_key context =
     and_then (stat context) (\<lambda>n.
       case n of
         PInt n_stars \<Rightarrow>
           and_then (round_with_direction_string n_stars) (\<lambda>(n_rd, direction).
           and_then (dict_get over_nearly_or_exactly direction) (\<lambda>qualifier.
             Inr (dict_set (dict_set context number_key (PInt n_rd))
                           qualifier_key (PStr qualifier))))
       | _ \<Rightarrow> Inl TypeError)"

section \<open>Format strings\<close>

text \<open>
  \<^verbatim>\<open>str.format\<close> and \<^verbatim>\<open>string.Formatter.parse\<close> read a format string with the same
  iterator: literal text, \<^verbatim>\<open>{{\<close> and \<^verbatim>\<open>}}\<close> for a literal brace, and
  \<^verbatim>\<open>{field_name}\<close>.  The iterator is lazy, so a malformed tail is only reported when it
  is reached: \<open>Bad\<close> ends the sequence of segments with the error raised there.  The
  second argument of \<open>markup\<close> is the text still to read; the first is \<open>None\<close> in
  literal text and \<open>Some name\<close> inside a placeholder whose name so far is \<open>name\<close>.

  Modelled placeholders are plain keyword names.  A conversion (\<^verbatim>\<open>!r\<close>), a format
  specification (\<^verbatim>\<open>:>10\<close>), an attribute or an index (\<^verbatim>\<open>a.b\<close>, \<^verbatim>\<open>a[0]\<close>), the empty
  name and a number (automatic and positional arguments) are \<open>NotModelled\<close>.
\<close>

datatype seg = Lit char | Fld string | Bad pyerror

definition is_digit :: "char \<Rightarrow> bool" where
  "is_digit c = (48 \<le> (of_char c :: nat) \<and> (of_char c :: nat) \<le> 57)"

definition is_alnum :: "char \<Rightarrow> bool" where
  "is_alnum c =
     (let n = (of_char c :: nat)
      in (48 \<le> n \<and> n \<le> 57) \<or> (65 \<le> n \<and> n \<le> 90) \<or> (97 \<le> n \<and> n \<le> 122))"

definition keyword_name :: "string \<Rightarrow> bool" where
  "keyword_name name = (name \<noteq> [] \<and> \<not> list_all is_digit name)"

fun markup :: "string option \<Rightarrow> string \<Rightarrow> seg list" where
  "markup None [] = []"
| "markup None (c # cs) =
     (if c = CHR ''{'' then
        (case cs of
           [] \<Rightarrow> [Bad ValueError]
         | d # ds \<Rightarrow> if d = CHR ''{'' then Lit c # markup None ds else markup (Some []) cs)
      else if c = CHR ''}'' then
        (case cs of
           [] \<Rightarrow> [Bad ValueError]
         | d # ds \<Rightarrow> if d = CHR ''}'' then Lit c # markup None ds else [Bad ValueError])
      else Lit c # markup None cs)"
| "markup (Some name) [] = [Bad ValueError]"
| "markup (Some name) (c # cs) =
     (if c = CHR ''}'' then
        (if keyword_name name then Fld name # markup None cs else [Bad NotModelled])
      else if c = CHR ''{'' then [Bad ValueError]
      else if c \<in> set ''!:.[]'' then [Bad NotModelled]
      else markup (Some (name @ [c])) cs)"

definition parse_format :: "string \<Rightarrow> seg list" where
  "parse_format format_string = markup None format_string"

text \<open>\<^verbatim>\<open>format_string.format(**kwargs)\<close>: every field is looked up in the keyword
  arguments and replaced by \<^verbatim>\<open>str\<close> of its value; the first failure from the left is
  the one raised.\<close>

fun render :: "pycontext \<Rightarrow> seg list \<Rightarrow> pyerror + string" where
  "render kwargs [] = Inr []"
| "render kwargs (Lit c # segs) = and_then (render kwargs segs) (\<lambda>rest. Inr (c # rest))"
| "render kwargs (Fld name # segs) =
     and_then (dict_get kwargs name) (\<lambda>v.
     and_then (py_str v) (\<lambda>s.
     and_then (render kwargs segs) (\<lambda>rest. Inr (s @ rest))))"
| "render kwargs (Bad e # segs) = Inl e"

definition str_format :: "string \<Rightarrow> pycontext \<Rightarrow> pyerror + string" where
  "str_format format_string kwargs = render kwargs (parse_format format_string)"

text \<open>\<^verbatim>\<open>f(**a, **b)\<close> is a \<^verbatim>\<open>TypeError\<close> when a key occurs in both dicts.\<close>

definition merge_kwargs :: "pycontext \<Rightarrow> pycontext \<Rightarrow> pyerror + pycontext" where
  "merge_kwargs a b =
     (if list_ex (\<lambda>k. k \<in> set (keys a)) (keys b) then Inl TypeError else Inr (a @ b))"

section \<open>RegexpFormatter\<close>

text \<open>\<^verbatim>\<open>RegexpFormatter.get_field\<close> returns the group for a field and appends the field
  name to \<^verbatim>\<open>self.fields\<close>; \<^verbatim>\<open>string.Formatter.vformat\<close> joins the literal text and the
  groups.  The result is the regular expression text and the final \<^verbatim>\<open>fields\<close>.\<close>

definition get_field :: "(string \<times> string) list \<Rightarrow> string \<Rightarrow> string" where
  "get_field special field_name =
     ''('' @ (case map_of special field_name of None \<Rightarrow> ''.*?'' | Some field \<Rightarrow> field) @ '')''"

fun vformat :: "(string \<times> string) list \<Rightarrow> seg list \<Rightarrow> pyerror + (string \<times> string list)" where
  "vformat special [] = Inr ([], [])"
| "vformat special (Lit c # segs) =
     and_then (vformat special segs) (\<lambda>(text, fields). Inr (c # text, fields))"
| "vformat special (Fld name # segs) =
     and_then (vformat special segs) (\<lambda>(text, fields).
       Inr (get_field special name @ text, name # fields))"
| "vformat special (Bad e # segs) = Inl e"

text \<open>
  \<^verbatim>\<open>string.Formatter.parse\<close> reads the format string with the iterator of
  \<^verbatim>\<open>str.format\<close>, and \<^verbatim>\<open>vformat\<close> hands every field name to \<^verbatim>\<open>get_field\<close> whole:
  \<^verbatim>\<open>RegexpFormatter.get_field\<close> looks nothing up, so an attribute or an index
  (\<^verbatim>\<open>names[0]\<close>) is part of the name.  Inside a field the text from a \<^verbatim>\<open>[\<close> up to
  the next \<^verbatim>\<open>]\<close> is skipped, so a brace there neither ends the field nor is an error;
  a field that the end of the string cuts short is a \<^verbatim>\<open>ValueError\<close>.  A conversion, a
  format specification, the empty name and a number (automatic and manual numbering)
  are \<open>NotModelled\<close>.
\<close>

function formatter_parser :: "string option \<Rightarrow> string \<Rightarrow> seg list" where
  "formatter_parser None [] = []"
| "formatter_parser None (c # cs) =
     (if c = CHR ''{'' then
        (case cs of
           [] \<Rightarrow> [Bad ValueError]
         | d # ds \<Rightarrow>
             if d = CHR ''{'' then Lit c # formatter_parser None ds
             else formatter_parser (Some []) cs)
      else if c = CHR ''}'' then
        (case cs of
           [] \<Rightarrow> [Bad ValueError]
         | d # ds \<Rightarrow>
             if d = CHR ''}'' then Lit c # formatter_parser None ds else [Bad ValueError])
      else Lit c # formatter_parser None cs)"
| "formatter_parser (Some name) [] = [Bad ValueError]"
| "formatter_parser (Some name) (c # cs) =
     (if c = CHR ''}'' then
        (if keyword_name name then Fld name # formatter_parser None cs
         else [Bad NotModelled])
      else if c = CHR ''{'' then [Bad ValueError]
      else if c = CHR ''['' then
        formatter_parser (Some (name @ c # takeWhile (\<lambda>d. d \<noteq> CHR '']'') cs))
          (dropWhile (\<lambda>d. d \<noteq> CHR '']'') cs)
      else if c = CHR ''!'' \<or> c = CHR '':'' then [Bad NotModelled]
      else formatter_parser (Some (name @ [c])) cs)"
  by pat_completeness auto
termination
  by (relation "measure (\<lambda>(st, cs). length cs)")
     (auto simp: less_Suc_eq_le length_dropWhile_le)

definition regexp_format :: "string \<Rightarrow> pyerror + (string \<times> string list)" where
  "regexp_format format_string = vformat [] (formatter_parser None format_string)"

section \<open>Regular expressions\<close>

text \<open>
  The regular expressions that \<^verbatim>\<open>re_match\<close> compiles are made of literal characters,
  escaped characters, the group \<^verbatim>\<open>(.*?)\<close> and the final \<^verbatim>\<open>$\<close>; a backslash of the
  template followed by an escaped \<^verbatim>\<open>?\<close> or \<^verbatim>\<open>*\<close> yields a quantified backslash.  This
  is the syntax modelled; everything else \<^verbatim>\<open>re.compile\<close> accepts or rejects is
  \<open>NotModelled\<close>.
\<close>

definition bslash :: char where
  "bslash = CHR 0x5C"

definition newline :: char where
  "newline = CHR 0x0A"

datatype tok = TLit char | TSym char

datatype rx = RChr char | ROpt char | RStar char | RGroup | REnd

definition cons_ok :: "'a \<Rightarrow> pyerror + 'a list \<Rightarrow> pyerror + 'a list" where
  "cons_ok x r = and_then r (\<lambda>xs. Inr (x # xs))"

text \<open>The tokenizer: a backslash and the character after it are one token; a backslash
  before a character that is not a letter or a digit makes it a literal.\<close>

fun re_lex :: "string \<Rightarrow> pyerror + tok list" where
  "re_lex [] = Inr []"
| "re_lex (c # cs) =
     (if c = bslash then
        (case cs of
           [] \<Rightarrow> Inl ReError
         | d # ds \<Rightarrow> if is_alnum d then Inl NotModelled else cons_ok (TLit d) (re_lex ds))
      else if c \<in> set ''.^$*+?{}[]|()'' then cons_ok (TSym c) (re_lex cs)
      else cons_ok (TLit c) (re_lex cs))"

definition repeat_follows :: "tok list \<Rightarrow> bool" where
  "repeat_follows ts =
     (case ts of TSym q # _ \<Rightarrow> q \<in> set ''*+?{'' | _ \<Rightarrow> False)"

fun re_items :: "tok list \<Rightarrow> pyerror + rx list" where
  "re_items [] = Inr []"
| "re_items (TLit c # ts) =
     (case ts of
        TSym q # r \<Rightarrow>
          if q = CHR ''?'' then
            (if repeat_follows r then Inl NotModelled else cons_ok (ROpt c) (re_items r))
          else if q = CHR ''*'' then
            (if repeat_follows r then Inl NotModelled else cons_ok (RStar c) (re_items r))
          else if q = CHR ''+'' \<or> q = CHR ''{'' then Inl NotModelled
          else cons_ok (RChr c) (re_items ts)
      | _ \<Rightarrow> cons_ok (RChr c) (re_items ts))"
| "re_items (TSym s # ts) =
     (if s = CHR ''$'' then
        (if repeat_follows ts then Inl NotModelled else cons_ok REnd (re_items ts))
      else if s = CHR ''('' then
        (case ts of
           TSym a # TSym b # TSym c # TSym d # r \<Rightarrow>
             if [a, b, c, d] = ''.*?)'' \<and> \<not> repeat_follows r
             then cons_ok RGroup (re_items r) else Inl NotModelled
         | _ \<Rightarrow> Inl NotModelled)
      else Inl NotModelled)"

definition re_compile :: "string \<Rightarrow> pyerror + rx list" where
  "re_compile regexp = and_then (re_lex regexp) re_items"

text \<open>
  \<^verbatim>\<open>compiled.match(tweet)\<close>: a backtracking match from the first character of the
  string, which need not reach its end.  The result is \<^verbatim>\<open>None\<close> or the groups of the
  first match found: a lazy group tries the shorter text first, \<^verbatim>\<open>?\<close> and \<^verbatim>\<open>*\<close> the
  longer; \<^verbatim>\<open>.\<close> is any character but a newline; \<^verbatim>\<open>$\<close> holds at the end of the string
  and before a newline that ends it.
\<close>

fun rmatch :: "rx list \<Rightarrow> string \<Rightarrow> string list option" where
  "rmatch [] s = Some []"
| "rmatch (REnd # r) s = (if s = [] \<or> s = [newline] then rmatch r s else None)"
| "rmatch (RChr c # r) s =
     (case s of [] \<Rightarrow> None | x # xs \<Rightarrow> if x = c then rmatch r xs else None)"
| "rmatch (ROpt c # r) s =
     (case s of
        [] \<Rightarrow> rmatch r s
      | x # xs \<Rightarrow>
          if x = c then (case rmatch r xs of Some gs \<Rightarrow> Some gs | None \<Rightarrow> rmatch r s)
          else rmatch r s)"
| "rmatch (RStar c # r) s =
     (case s of
        [] \<Rightarrow> rmatch r s
      | x # xs \<Rightarrow>
          if x = c then
            (case rmatch (RStar c # r) xs of Some gs \<Rightarrow> Some gs | None \<Rightarrow> rmatch r s)
          else rmatch r s)"
| "rmatch (RGroup # r) s =
     (case rmatch r s of
        Some gs \<Rightarrow> Some ([] # gs)
      | None \<Rightarrow>
          (case s of
             [] \<Rightarrow> None
           | x # xs \<Rightarrow>
               if x = newline then None
               else (case rmatch (RGroup # r) xs of
                       Some (g # gs) \<Rightarrow> Some ((x # g) # gs)
                     | _ \<Rightarrow> None)))"

section \<open>TweetPattern and its subclasses\<close>

datatype klass = TweetPattern | NReposInCachePattern | RepoTweet | LotsOfStars | LotsOfForks

text \<open>An instance: its class, the \<^verbatim>\<open>pattern\<close> attribute and the two attributes that
  \<^verbatim>\<open>re_match\<close> sets on first use (\<open>None\<close> while the attribute does not exist).\<close>

record tweet_pattern =
  klass :: klass
  pattern :: string
  re_fields :: "string list option"
  compiled_regexp :: "rx list option"

definition new_pattern :: "klass \<Rightarrow> string \<Rightarrow> tweet_pattern" where
  "new_pattern cls p =
     \<lparr>klass = cls, pattern = p, re_fields = None, compiled_regexp = None\<rparr>"

definition replace_char :: "char \<Rightarrow> string \<Rightarrow> string \<Rightarrow> string" where
  "replace_char old new s = concat (map (\<lambda>c. if c = old then new else [c]) s)"

definition escape :: "string \<Rightarrow> string" where
  "escape p =
     replace_char CHR ''.'' [bslash, CHR ''.'']
       (replace_char CHR ''*'' [bslash, CHR ''*'']
         (replace_char CHR ''?'' [bslash, CHR ''?''] p))"

text \<open>What the first call of \<^verbatim>\<open>re_match\<close> computes from the template.\<close>

definition compile_pattern :: "string \<Rightarrow> pyerror + (rx list \<times> string list)" where
  "compile_pattern p =
     and_then (regexp_format (escape p)) (\<lambda>(regexp, fields).
     and_then (re_compile (regexp @ ''$'')) (\<lambda>r. Inr (r, fields)))"

text \<open>\<^verbatim>\<open>re_match\<close> returns the groups of the match (\<open>None\<close> for no match) and the
  instance, whose attributes the first call sets.\<close>

definition re_match ::
  "tweet_pattern \<Rightarrow> string \<Rightarrow> pyerror + (string list option \<times> tweet_pattern)" where
  "re_match self tweet =
     (case compiled_regexp self of
        Some r \<Rightarrow> Inr (rmatch r tweet, self)
      | None \<Rightarrow>
          and_then (regexp_format (escape (pattern self))) (\<lambda>(regexp, fields).
          and_then (re_compile (regexp @ ''$'')) (\<lambda>r.
            Inr (rmatch r tweet,
                 self\<lparr>re_fields := Some fields, compiled_regexp := Some r\<rparr>))))"

text \<open>\<^verbatim>\<open>format\<close>: \<^verbatim>\<open>self.pattern.format(**(extra_context or {}), **context)\<close>.\<close>

definition format ::
  "tweet_pattern \<Rightarrow> pycontext \<Rightarrow> pycontext option \<Rightarrow> pyerror + string" where
  "format self context extra_context =
     and_then (merge_kwargs (case extra_context of None \<Rightarrow> [] | Some e \<Rightarrow> e) context)
       (str_format (pattern self))"

text \<open>\<^verbatim>\<open>condition\<close>, by class.  \<^verbatim>\<open>>= 50\<close> on a string, a list or a dict is a
  \<^verbatim>\<open>TypeError\<close>.\<close>

definition at_least_50 :: "pyval \<Rightarrow> pyerror + bool" where
  "at_least_50 v = (case v of PInt n \<Rightarrow> Inr (n \<ge> 50) | _ \<Rightarrow> Inl TypeError)"

definition condition :: "klass \<Rightarrow> pycontext \<Rightarrow> pyerror + bool" where
  "condition cls context =
     (case cls of
        TweetPattern \<Rightarrow> Inr True
      | NReposInCachePattern \<Rightarrow> Inr (length context \<ge> 2)
      | RepoTweet \<Rightarrow> Inr True
      | LotsOfStars \<Rightarrow> and_then (stargazers context) at_least_50
      | LotsOfForks \<Rightarrow> and_then (forks context) at_least_50)"

text \<open>A loop body that may raise, run over a list: the first error ends it.\<close>

fun collect :: "('a \<Rightarrow> pyerror + 'b) \<Rightarrow> 'a list \<Rightarrow> pyerror + 'b list" where
  "collect f [] = Inr []"
| "collect f (x # xs) = and_then (f x) (\<lambda>y. cons_ok y (collect f xs))"

text \<open>\<^verbatim>\<open>NReposInCachePattern.updated_context\<close>.  The sort keys are compared as integers;
  keys of another type are not modelled.\<close>

definition record_stat :: "string \<Rightarrow> pyval \<Rightarrow> pyerror + pyval" where
  "record_stat name v =
     and_then (subscript v ''github'') (\<lambda>g.
     and_then (subscript g ''repo'') (\<lambda>r. subscript r name))"

definition int_key :: "pyval \<Rightarrow> pyerror + int" where
  "int_key v = (case v of PInt n \<Rightarrow> Inr n | _ \<Rightarrow> Inl NotModelled)"

definition n_repos_context :: "pycontext \<Rightarrow> pyerror + pycontext" where
  "n_repos_context context =
     and_then (collect (record_stat ''stargazers_count'') (map snd context)) (\<lambda>ks.
     and_then (collect int_key ks) (\<lambda>ns.
     and_then (collect (record_stat ''name'')
                 (take 3 (map snd (sort_key fst (zip ns (map snd context)))))) (\<lambda>names.
       if ''n_repos'' \<in> set (keys context) \<or> ''names'' \<in> set (keys context)
       then Inl TypeError
       else Inr (context @ [(''n_repos'', PInt (int (length context))),
                            (''names'', PList names)]))))"

definition updated_context :: "klass \<Rightarrow> pycontext \<Rightarrow> pyerror + pycontext" where
  "updated_context cls context =
     (case cls of
        TweetPattern \<Rightarrow> Inr context
      | NReposInCachePattern \<Rightarrow> n_repos_context context
      | RepoTweet \<Rightarrow> Inr context
      | LotsOfStars \<Rightarrow>
          qualified_context stargazers ''n_stargazers'' ''stars_over_or_nearly'' context
      | LotsOfForks \<Rightarrow>
          qualified_context forks ''forks'' ''forks_over_or_nearly'' context)"

text \<open>\<^verbatim>\<open>RepoTweet\<close> and its subclasses override \<^verbatim>\<open>drop_content\<close> and \<^verbatim>\<open>context\<close>.\<close>

definition is_repo_tweet :: "klass \<Rightarrow> bool" where
  "is_repo_tweet cls = (cls = RepoTweet \<or> cls = LotsOfStars \<or> cls = LotsOfForks)"

text \<open>\<^verbatim>\<open>TweetPattern.context\<close>: the contexts it yields (the pattern yielded with each is
  \<^verbatim>\<open>self\<close>).\<close>

definition base_context :: "tweet_pattern \<Rightarrow> pycontext \<Rightarrow> pyerror + pycontext list" where
  "base_context self context =
     and_then (condition (klass self) context) (\<lambda>ok.
       if ok then and_then (updated_context (klass self) context) (\<lambda>c. Inr [c])
       else Inr [])"

section \<open>Retraction and pruning\<close>

definition checkable :: "string list" where
  "checkable = [''uuid'', ''name'', ''url'']"

text \<open>The inner loop of \<^verbatim>\<open>RepoTweet.drop_content\<close>: the uuid of the first record of the
  pool whose field \<open>f\<close>, rendered by \<^verbatim>\<open>'{f}'.format(**context)\<close>, is \<open>g\<close>.\<close>

fun find_record :: "string \<Rightarrow> string \<Rightarrow> pool \<Rightarrow> pyerror + string option" where
  "find_record f g [] = Inr None"
| "find_record f g ((uuid, context) # rest) =
     and_then (str_format (''{'' @ f @ ''}'') context) (\<lambda>s.
       if s = g then Inr (Some uuid) else find_record f g rest)"

text \<open>The outer loop, over the fields zipped with the groups.\<close>

fun retract :: "(string \<times> string) list \<Rightarrow> pool \<Rightarrow> pyerror + pool" where
  "retract [] content = Inr content"
| "retract ((f, g) # fgs) content =
     (if f \<in> set checkable then
        and_then (find_record f g content) (\<lambda>hit.
          case hit of
            Some uuid \<Rightarrow> Inr (dict_pop content uuid)
          | None \<Rightarrow> retract fgs content)
      else retract fgs content)"

text \<open>\<^verbatim>\<open>drop_content\<close>: nothing in \<^verbatim>\<open>TweetPattern\<close>; in \<^verbatim>\<open>RepoTweet\<close> a message that does
  not match makes \<^verbatim>\<open>match.groups()\<close> an \<^verbatim>\<open>AttributeError\<close>.\<close>

definition drop_content ::
  "tweet_pattern \<Rightarrow> string \<Rightarrow> pool \<Rightarrow> pyerror + (tweet_pattern \<times> pool)" where
  "drop_content self message content =
     (if is_repo_tweet (klass self) then
        and_then (re_match self message) (\<lambda>(match, self').
          case match of
            None \<Rightarrow> Inl AttributeError
          | Some groups \<Rightarrow>
              (case re_fields self' of
                 None \<Rightarrow> Inl AttributeError
               | Some fs \<Rightarrow>
                   and_then (retract (zip fs groups) content) (\<lambda>content'.
                     Inr (self', content'))))
      else Inr (self, content))"

text \<open>
  Instances are compared by identity (\<^verbatim>\<open>pattern in result\<close>, \<^verbatim>\<open>result.remove\<close>) and
  are mutated by \<^verbatim>\<open>re_match\<close>, so a list of patterns is a list of addresses into a heap
  of instances.  \<^verbatim>\<open>patterns\<close> is a list or the generator that
  \<^verbatim>\<open>all_patterns_all_subclasses\<close> returns, which has no \<^verbatim>\<open>copy\<close>.
\<close>

type_synonym heap = "nat \<Rightarrow> tweet_pattern"

datatype pyiterable = PyList "nat list" | PyGenerator "tweet_pattern list"

fun drop_recent_messages ::
  "nat \<Rightarrow> string list \<Rightarrow> nat list \<times> heap \<times> pool \<Rightarrow> pyerror + (nat list \<times> heap \<times> pool)" where
  "drop_recent_messages a [] st = Inr st"
| "drop_recent_messages a (message # ms) (result, h, content) =
     and_then (re_match (h a) message) (\<lambda>(match, self').
       case match of
         None \<Rightarrow> drop_recent_messages a ms (result, h(a := self'), content)
       | Some groups \<Rightarrow>
           and_then (drop_content self' message content) (\<lambda>(self'', content').
             drop_recent_messages a ms
               (if a \<in> set result then remove1 a result else result,
                h(a := self''), content')))"

fun drop_recent_patterns ::
  "nat list \<Rightarrow> string list \<Rightarrow> nat list \<times> heap \<times> pool \<Rightarrow> pyerror + (nat list \<times> heap \<times> pool)" where
  "drop_recent_patterns [] recent_messages st = Inr st"
| "drop_recent_patterns (a # as) recent_messages st =
     and_then (drop_recent_messages a recent_messages st)
       (drop_recent_patterns as recent_messages)"

definition drop_recent ::
  "string list \<Rightarrow> pyiterable \<Rightarrow> heap \<Rightarrow> pool \<Rightarrow> pyerror + (nat list \<times> heap \<times> pool)" where
  "drop_recent recent_messages patterns h content =
     (case patterns of
        PyGenerator _ \<Rightarrow> Inl AttributeError
      | PyList ps \<Rightarrow> drop_recent_patterns ps recent_messages (ps, h, content))"

section \<open>The registry and the cycle\<close>

definition class_patterns :: "klass \<Rightarrow> string list" where
  "class_patterns cls =
     (case cls of
        TweetPattern \<Rightarrow>
          [''We generate a report of repository metrics for any public github repo. Try it out at {repohealth_url}'',
           ''If you want to find out how your favourite repository is faring, take a look at {repohealth_url}'']
      | NReposInCachePattern \<Rightarrow>
          [''I recently generated reports for #{names[0]} and #{names[1]} on {repohealth_url}'']
      | RepoTweet \<Rightarrow>
          [''Just generated a health report for {name} at {url}'']
      | LotsOfStars \<Rightarrow>
          [''Just compiled a repo report for {name} - it now has {stars_over_or_nearly}{n_stargazers} stargazers!'',
           ''Did you know that {name} now has {stars_over_or_nearly}{n_stargazers} stargazers on GitHub? Full report at {url}'']
      | LotsOfForks \<Rightarrow>
          [''{name} now has {forks_over_or_nearly}{forks} forks! See the full report at {url}''])"

text \<open>\<^verbatim>\<open>cls.__subclasses__()\<close>, in the order the classes are defined.\<close>

definition subclasses :: "klass \<Rightarrow> klass list" where
  "subclasses cls =
     (case cls of
        TweetPattern \<Rightarrow> [NReposInCachePattern, RepoTweet]
      | RepoTweet \<Rightarrow> [LotsOfStars, LotsOfForks]
      | _ \<Rightarrow> [])"

definition depth :: "klass \<Rightarrow> nat" where
  "depth cls = (case cls of TweetPattern \<Rightarrow> 2 | RepoTweet \<Rightarrow> 1 | _ \<Rightarrow> 0)"

function all_subclasses :: "klass \<Rightarrow> bool \<Rightarrow> klass list" where
  "all_subclasses cls include_self =
     (if include_self then [cls] else [])
     @ concat (map (\<lambda>k. k # all_subclasses k False) (subclasses cls))"
  by pat_completeness auto
termination
  by (relation "measure (\<lambda>(cls, include_self). depth cls)")
     (auto simp: subclasses_def depth_def split: klass.splits)

declare all_subclasses.simps [simp del]

definition all_patterns :: "klass \<Rightarrow> tweet_pattern list" where
  "all_patterns cls = map (new_pattern cls) (class_patterns cls)"

definition all_patterns_all_subclasses :: "klass \<Rightarrow> bool \<Rightarrow> pyiterable" where
  "all_patterns_all_subclasses cls include_self =
     PyGenerator (concat (map all_patterns (all_subclasses cls include_self)))"

text \<open>The loop of \<^verbatim>\<open>tweet_status\<close> that adds \<^verbatim>\<open>uuid\<close>, \<^verbatim>\<open>name\<close> and \<^verbatim>\<open>url\<close> to every
  record.\<close>

definition add_extra :: "string \<Rightarrow> pycontext \<Rightarrow> pyerror + pycontext" where
  "add_extra uuid context =
     (let c1 = (if ''uuid'' \<in> set (keys context) then context
                else dict_set context ''uuid'' (PStr uuid))
      in and_then (payload_stat ''name'' c1) (\<lambda>name.
           Inr (dict_set (dict_set c1 ''name'' name)
                  ''url'' (PStr (''repohealth.info/report/'' @ uuid)))))"

definition add_extra_content :: "pool \<Rightarrow> pyerror + pool" where
  "add_extra_content content =
     collect (\<lambda>(uuid, context). and_then (add_extra uuid context) (\<lambda>c. Inr (uuid, c))) content"

text \<open>The rendering loop of \<^verbatim>\<open>tweet_status\<close>.  \<^verbatim>\<open>context\<close> is a generator, so each
  context is formatted before the next one is computed.  \<^verbatim>\<open>TweetPattern.context\<close> is
  given the pool itself as its context; \<^verbatim>\<open>RepoTweet.context\<close> runs it on every
  record.\<close>

definition render_context ::
  "tweet_pattern \<Rightarrow> pycontext \<Rightarrow> pycontext \<Rightarrow> pyerror + string list" where
  "render_context self global_context context =
     and_then (base_context self context)
       (collect (\<lambda>c. format self c (Some global_context)))"

definition pool_context :: "pool \<Rightarrow> pycontext" where
  "pool_context content = map (\<lambda>(uuid, context). (uuid, PDict context)) content"

definition pattern_options :: "tweet_pattern \<Rightarrow> pool \<Rightarrow> pycontext \<Rightarrow> pyerror + string list" where
  "pattern_options self content global_context =
     (if is_repo_tweet (klass self) then
        and_then (collect (render_context self global_context) (map snd content))
          (\<lambda>xs. Inr (concat xs))
      else render_context self global_context (pool_context content))"

definition tweet_options ::
  "tweet_pattern list \<Rightarrow> pool \<Rightarrow> pycontext \<Rightarrow> pyerror + string list" where
  "tweet_options patterns content global_context =
     and_then (collect (\<lambda>p. pattern_options p content global_context) patterns)
       (\<lambda>xs. Inr (concat xs))"

text \<open>
  \<^verbatim>\<open>tweet_status\<close>, from the point where the collaborators have answered: \<open>repo_data\<close>
  is the dict built from \<^verbatim>\<open>repohealth.generate\<close>, \<open>recently_tweeted\<close> the texts of the
  timeline, \<open>random_choice\<close> the choice \<^verbatim>\<open>random.choice\<close> makes.  The generator has
  created no instance when \<^verbatim>\<open>drop_recent\<close> is called, so the heap is the given one.
\<close>

datatype outcome = NothingToTweet | Tweeting string

definition tweet_status ::
  "(string list \<Rightarrow> string) \<Rightarrow> heap \<Rightarrow> pool \<Rightarrow> string list \<Rightarrow> pyerror + outcome" where
  "tweet_status random_choice h repo_data recently_tweeted =
     (let patterns = all_patterns_all_subclasses TweetPattern True
      in and_then (add_extra_content repo_data) (\<lambda>content.
         and_then (drop_recent recently_tweeted patterns h content) (\<lambda>(patterns', h', content').
         and_then (tweet_options (map h' patterns') content'
                     [(''repohealth_url'', PStr ''repohealth.info'')]) (\<lambda>opts.
           if opts = [] then Inr NothingToTweet
           else Inr (Tweeting (random_choice opts))))))"

section \<open>Example data\<close>

definition octo :: pycontext where
  "octo = [(''github'', PDict [(''repo'', PDict [(''name'', PStr ''octo''), (''stargazers_count'', PInt 1234), (''forks_count'', PInt 51)])])]"

definition repo_tweet :: tweet_pattern where
  "repo_tweet = new_pattern RepoTweet ''Just generated a health report for {name} at {url}''"




definition half_pool :: pool where
  "half_pool = [(''a'', [(''name'', PStr ''octo'')]),
                (''b'', [(''name'', PStr ''cat''), (''url'', PStr ''r.io/b'')])]"

text \<open>The attributes of \<open>self\<close> after a successful first use.\<close>

definition compiled :: "tweet_pattern \<Rightarrow> rx list \<Rightarrow> string list \<Rightarrow> tweet_pattern" where
  "compiled self r fs = self\<lparr>re_fields := Some fs, compiled_regexp := Some r\<rparr>"

definition short_tweet :: tweet_pattern where
  "short_tweet = new_pattern RepoTweet ''{name} at {url}''"

definition short_forks :: tweet_pattern where
  "short_forks = new_pattern LotsOfForks ''{name} at {url}''"

definition short_rx :: "rx list" where
  "short_rx = [RGroup, RChr CHR '' '', RChr CHR ''a'', RChr CHR ''t'', RChr CHR '' '', RGroup, REnd]"

text \<open>The rendering \<^verbatim>\<open>'{f}'.format(**context)\<close> of field \<open>f\<close> of a record is \<open>g\<close>.\<close>

definition field_is :: "string \<Rightarrow> string \<Rightarrow> string \<times> pycontext \<Rightarrow> bool" where
  "field_is f g rec = (str_format (''{'' @ f @ ''}'') (snd rec) = Inr g)"

text \<open>Every record of the pool supplies a value that renders for every allow-listed
  field among \<open>fs\<close>, the fields of a template.\<close>

definition supplies :: "string list \<Rightarrow> pool \<Rightarrow> bool" where
  "supplies fs content =
     (\<forall>rec \<in> set content. \<forall>f \<in> set fs. f \<in> set checkable \<longrightarrow>
        (\<exists>s. str_format (''{'' @ f @ ''}'') (snd rec) = Inr s))"

text \<open>What \<^verbatim>\<open>drop_content\<close> is meant to do, without the errors: for the first
  allow-listed field, in template order, that some record renders to its group, the
  first such record of the pool is removed.\<close>

definition retracted :: "(string \<times> string) list \<Rightarrow> pool \<Rightarrow> pool" where
  "retracted fgs content =
     (case List.find (\<lambda>(f, g). f \<in> set checkable \<and> (\<exists>rec \<in> set content. field_is f g rec)) fgs of
        None \<Rightarrow> content
      | Some (f, g) \<Rightarrow>
          (case List.find (field_is f g) content of
             None \<Rightarrow> content
           | Some rec \<Rightarrow> dict_pop content (fst rec)))"

text \<open>The state of the cache of an instance: not yet set, or set to what its template
  compiles to.\<close>

definition cache_ok :: "tweet_pattern \<Rightarrow> rx list \<Rightarrow> string list \<Rightarrow> bool" where
  "cache_ok self r fs =
     (compile_pattern (pattern self) = Inr (r, fs)
      \<and> (compiled_regexp self = None
         \<or> (compiled_regexp self = Some r \<and> re_fields self = Some fs)))"






definition try_rx :: "rx list" where
  "try_rx = [RChr CHR ''T'', RChr CHR ''r'', RChr CHR ''y'', RChr CHR '' '', RGroup, REnd]"

text \<open>Successive calls of \<^verbatim>\<open>re_match\<close> on one instance, each on the instance as the
  call before left it: the answers, and the instance after the last call.\<close>

fun re_match_seq ::
  "tweet_pattern \<Rightarrow> string list \<Rightarrow> pyerror + (string list option list \<times> tweet_pattern)" where
  "re_match_seq self [] = Inr ([], self)"
| "re_match_seq self (tweet # tweets) =
     and_then (re_match self tweet) (\<lambda>(m, self').
     and_then (re_match_seq self' tweets) (\<lambda>(ms, self''). Inr (m # ms, self'')))"

text \<open>The instance of \<^verbatim>\<open>NReposInCachePattern\<close> that the registry creates, and the
  matcher of its template.\<close>

definition nrepos_tweet :: tweet_pattern where
  "nrepos_tweet = new_pattern NReposInCachePattern
     ''I recently generated reports for #{names[0]} and #{names[1]} on {repohealth_url}''"

definition nrepos_rx :: "rx list" where
  "nrepos_rx = map RChr ''I recently generated reports for #'' @ [RGroup]
     @ map RChr '' and #'' @ [RGroup] @ map RChr '' on '' @ [RGroup, REnd]"

text \<open>An instance whose stored matcher is not the one of its template.\<close>

definition odd_tweet :: tweet_pattern where
  "odd_tweet = short_tweet\<lparr>re_fields := Some [''repohealth_url''], compiled_regexp := Some try_rx\<rparr>"

definition repo_rx :: "rx list" where
  "repo_rx = map RChr ''Just generated a health report for '' @ [RGroup]
     @ map RChr '' at '' @ [RGroup, REnd]"

text \<open>A pool of three records without a \<^verbatim>\<open>uuid\<close> key.\<close>

definition named_pool :: pool where
  "named_pool =
     [(''a'', [(''name'', PStr ''octo''), (''url'', PStr ''r.io/a''), (''stars'', PInt 51)]),
      (''b'', [(''name'', PStr ''cat''), (''url'', PStr ''r.io/b'')]),
      (''c'', [(''name'', PStr ''dog''), (''url'', PStr ''r.io/c'')])]"




section \<open>Properties of the rounding\<close>

lemma ilog10_bounds: "0 < n \<Longrightarrow> 10 ^ ilog10 n \<le> n \<and> n < 10 ^ Suc (ilog10 n)"
proof (induction n rule: ilog10.induct)
  case (1 n)
  show ?case
  proof (cases "n < 10")
    case True
    with "1.prems" show ?thesis by (simp add: ilog10.simps [of n])
  next
    case False
    then have pos: "0 < n div 10" by simp
    from "1.IH" [OF False pos]
    have lo: "10 ^ ilog10 (n div 10) \<le> n div 10"
      and hi: "n div 10 < 10 ^ Suc (ilog10 (n div 10))" by simp_all
    have eq: "ilog10 n = Suc (ilog10 (n div 10))"
      using False by (simp add: ilog10.simps [of n])
    from lo have "10 * 10 ^ ilog10 (n div 10) \<le> n" by simp
    moreover from hi have "n < 10 * 10 ^ Suc (ilog10 (n div 10))" by simp
    ultimately show ?thesis by (simp add: eq)
  qed
qed

lemma divmod_near_props:
  assumes "0 < b"
  shows "fst (divmod_near a b) * b + snd (divmod_near a b) = a"
    and "2 * \<bar>snd (divmod_near a b)\<bar> \<le> b"
    and "2 * \<bar>snd (divmod_near a b)\<bar> = b \<Longrightarrow> even (fst (divmod_near a b))"
proof -
  have r: "0 \<le> a mod b" "a mod b < b" using assms by simp_all
  have d: "a div b * b + a mod b = a" by simp
  show "fst (divmod_near a b) * b + snd (divmod_near a b) = a"
    using d by (simp add: divmod_near_def Let_def algebra_simps)
  show "2 * \<bar>snd (divmod_near a b)\<bar> \<le> b"
    using r by (auto simp: divmod_near_def Let_def)
  show "2 * \<bar>snd (divmod_near a b)\<bar> = b \<Longrightarrow> even (fst (divmod_near a b))"
    using r by (auto simp: divmod_near_def Let_def split: if_splits)
qed

lemma py_round_multiple:
  assumes "n < 0"
  shows "py_round x n = fst (divmod_near x (10 ^ nat (- n))) * 10 ^ nat (- n)"
    and "2 * \<bar>py_round x n - x\<bar> \<le> 10 ^ nat (- n)"
proof -
  let ?u = "(10::int) ^ nat (- n)"
  have upos: "0 < ?u" by simp
  have pr: "py_round x n = x - snd (divmod_near x ?u)"
    using assms by (simp add: py_round_def)
  show "py_round x n = fst (divmod_near x ?u) * ?u"
    using divmod_near_props(1) [OF upos, of x] pr by linarith
  have d: "\<bar>py_round x n - x\<bar> = \<bar>snd (divmod_near x ?u)\<bar>"
    using pr by simp
  show "2 * \<bar>py_round x n - x\<bar> \<le> ?u"
    unfolding d by (rule divmod_near_props(2) [OF upos])
qed

lemma py_round_two_sig:
  fixes x :: int
  defines "u \<equiv> (10::int) ^ (ilog10 (nat x) - 1)"
  shows "u dvd py_round x (2 - int (ilog10 (nat x)) - 1)
       \<and> 2 * \<bar>py_round x (2 - int (ilog10 (nat x)) - 1) - x\<bar> \<le> u"
proof -
  let ?k = "ilog10 (nat x)"
  let ?n = "2 - int ?k - 1"
  show ?thesis
  proof (cases "?k \<le> 1")
    case True
    then have "u = 1" by (cases "?k") (simp_all add: u_def)
    moreover from True have "py_round x ?n = x" by (simp add: py_round_def)
    ultimately show ?thesis by simp
  next
    case False
    then have neg: "?n < 0" by simp
    have e: "nat (- ?n) = ?k - 1" using False by simp
    have "py_round x ?n = fst (divmod_near x u) * u"
      using py_round_multiple(1) [OF neg, of x] unfolding e u_def .
    moreover have "2 * \<bar>py_round x ?n - x\<bar> \<le> u"
      using py_round_multiple(2) [OF neg, of x] unfolding e u_def .
    ultimately show ?thesis by simp
  qed
qed

lemma round_with_direction_string_pos:
  assumes "0 < x"
  shows "round_with_direction_string x =
           Inr (py_round x (2 - int (ilog10 (nat x)) - 1),
                if py_round x (2 - int (ilog10 (nat x)) - 1) < x then ''less than''
                else if x < py_round x (2 - int (ilog10 (nat x)) - 1) then ''more than''
                else ''same as'')"
  using assms by (simp add: round_with_direction_string_def round_sig_def and_then_def)

lemma qualifier_lookup:
  "dict_get over_nearly_or_exactly
     (if (r::int) < x then ''less than'' else if x < r then ''more than'' else ''same as'')
   = Inr (if r < x then ''over '' else if x < r then ''nearly '' else '''')"
  by (simp add: dict_get_def over_nearly_or_exactly_def)

text \<open>
  Claim C7.  \<^verbatim>\<open>round_with_direction_string(1234)\<close> is \<^verbatim>\<open>(1200, "less than")\<close> and
  \<^verbatim>\<open>round_with_direction_string(50)\<close> is \<^verbatim>\<open>(50, "same as")\<close>.  For every positive
  integer \<open>x\<close>, whose leading digit has weight \<open>10 ^ k\<close>, the result is a multiple of
  \<open>10 ^ (k - 1)\<close> at distance at most half of it from \<open>x\<close> (two significant figures),
  the direction is \<^verbatim>\<open>"less than"\<close>, \<^verbatim>\<open>"more than"\<close> or \<^verbatim>\<open>"same as"\<close> as the rounded
  value is below, above or equal to \<open>x\<close>, and \<^verbatim>\<open>LotsOfStars.updated_context\<close> stores
  the qualifier \<^verbatim>\<open>"over "\<close>, \<^verbatim>\<open>"nearly "\<close> or \<^verbatim>\<open>""\<close> accordingly.
\<close>

theorem round_with_direction_string_two_sig:
  "round_with_direction_string 1234 = Inr (1200, ''less than'')
   \<and> round_with_direction_string 50 = Inr (50, ''same as'')
   \<and> (\<forall>x>0. \<exists>r d.
         round_with_direction_string x = Inr (r, d)
         \<and> 10 ^ ilog10 (nat x) \<le> x \<and> x < 10 ^ Suc (ilog10 (nat x))
         \<and> 10 ^ (ilog10 (nat x) - 1) dvd r
         \<and> 2 * \<bar>r - x\<bar> \<le> 10 ^ (ilog10 (nat x) - 1)
         \<and> d = (if r < x then ''less than'' else if x < r then ''more than'' else ''same as'')
         \<and> (\<forall>c. stargazers c = Inr (PInt x) \<longrightarrow>
               updated_context LotsOfStars c =
                 Inr (dict_set (dict_set c ''n_stargazers'' (PInt r))
                        ''stars_over_or_nearly''
                        (PStr (if r < x then ''over ''
                               else if x < r then ''nearly '' else '''')))))"
proof (intro conjI allI impI)
  show "round_with_direction_string 1234 = Inr (1200, ''less than'')"
    by (simp add: round_with_direction_string_def round_sig_def py_round_def
        divmod_near_def and_then_def ilog10.simps Let_def)
  show "round_with_direction_string 50 = Inr (50, ''same as'')"
    by (simp add: round_with_direction_string_def round_sig_def py_round_def
        divmod_near_def and_then_def ilog10.simps Let_def)
next
  fix x :: int
  assume pos: "0 < x"
  let ?r = "py_round x (2 - int (ilog10 (nat x)) - 1)"
  let ?d = "if ?r < x then ''less than'' else if x < ?r then ''more than'' else ''same as''"
  have eq: "round_with_direction_string x = Inr (?r, ?d)"
    by (rule round_with_direction_string_pos [OF pos])
  have mag: "10 ^ ilog10 (nat x) \<le> x \<and> x < 10 ^ Suc (ilog10 (nat x))"
  proof -
    from pos have "0 < nat x" by simp
    from ilog10_bounds [OF this]
    have "int (10 ^ ilog10 (nat x)) \<le> int (nat x)"
      and "int (nat x) < int (10 ^ Suc (ilog10 (nat x)))"
      by (simp_all only: of_nat_le_iff of_nat_less_iff)
    with pos show ?thesis by simp
  qed
  have upd: "updated_context LotsOfStars c =
                 Inr (dict_set (dict_set c ''n_stargazers'' (PInt ?r))
                        ''stars_over_or_nearly''
                        (PStr (if ?r < x then ''over ''
                               else if x < ?r then ''nearly '' else '''')))"
    if "stargazers c = Inr (PInt x)" for c
    using that qualifier_lookup [of ?r x]
    by (simp add: updated_context_def qualified_context_def eq and_then_def)
  show "\<exists>r d.
         round_with_direction_string x = Inr (r, d)
         \<and> 10 ^ ilog10 (nat x) \<le> x \<and> x < 10 ^ Suc (ilog10 (nat x))
         \<and> 10 ^ (ilog10 (nat x) - 1) dvd r
         \<and> 2 * \<bar>r - x\<bar> \<le> 10 ^ (ilog10 (nat x) - 1)
         \<and> d = (if r < x then ''less than'' else if x < r then ''more than'' else ''same as'')
         \<and> (\<forall>c. stargazers c = Inr (PInt x) \<longrightarrow>
               updated_context LotsOfStars c =
                 Inr (dict_set (dict_set c ''n_stargazers'' (PInt r))
                        ''stars_over_or_nearly''
                        (PStr (if r < x then ''over ''
                               else if x < r then ''nearly '' else ''''))))"
  proof (intro exI conjI allI impI)
    show "round_with_direction_string x = Inr (?r, ?d)" by (rule eq)
    show "10 ^ ilog10 (nat x) \<le> x" using mag by (rule conjunct1)
    show "x < 10 ^ Suc (ilog10 (nat x))" using mag by (rule conjunct2)
    show "10 ^ (ilog10 (nat x) - 1) dvd ?r"
      using py_round_two_sig [of x] by (rule conjunct1)
    show "2 * \<bar>?r - x\<bar> \<le> 10 ^ (ilog10 (nat x) - 1)"
      using py_round_two_sig [of x] by (rule conjunct2)
    show "?d = (if ?r < x then ''less than'' else if x < ?r then ''more than'' else ''same as'')"
      by (rule refl)
    fix c assume "stargazers c = Inr (PInt x)"
    then show "updated_context LotsOfStars c =
                 Inr (dict_set (dict_set c ''n_stargazers'' (PInt ?r))
                        ''stars_over_or_nearly''
                        (PStr (if ?r < x then ''over ''
                               else if x < ?r then ''nearly '' else '''')))"
      by (rule upd)
  qed
qed

theorem round_with_direction_string_two_sig_witness:
  "(0::int) < 1234 \<and> stargazers octo = Inr (PInt 1234)
   \<and> updated_context LotsOfStars octo =
       Inr (octo @ [(''n_stargazers'', PInt 1200), (''stars_over_or_nearly'', PStr ''over '')])"
proof -
  have s: "stargazers octo = Inr (PInt 1234)"
    by (simp add: stargazers_def payload_stat_def octo_def dict_get_def and_then_def)
  note c1 = round_with_direction_string_two_sig [THEN conjunct1]
  have p: "(0::int) < 1234" by simp
  note c3 = round_with_direction_string_two_sig
              [THEN conjunct2, THEN conjunct2, rule_format, OF p]
  from c3 obtain r d where
    rd: "round_with_direction_string 1234 = Inr (r, d)"
    and u: "\<forall>c. stargazers c = Inr (PInt 1234) \<longrightarrow>
               updated_context LotsOfStars c =
                 Inr (dict_set (dict_set c ''n_stargazers'' (PInt r))
                        ''stars_over_or_nearly''
                        (PStr (if r < 1234 then ''over ''
                               else if 1234 < r then ''nearly '' else '''')))"
    by (elim exE conjE)
  from rd c1 have r: "r = 1200" by simp
  have "updated_context LotsOfStars octo =
       Inr (octo @ [(''n_stargazers'', PInt 1200), (''stars_over_or_nearly'', PStr ''over '')])"
    using u [rule_format, OF s] unfolding r by (simp add: octo_def)
  with s show ?thesis by simp
qed

text \<open>
  Claim C10.  \<^verbatim>\<open>tweet_status\<close> hands \<^verbatim>\<open>drop_recent\<close> the generator returned by
  \<^verbatim>\<open>all_patterns_all_subclasses\<close>; \<^verbatim>\<open>patterns.copy()\<close> is then an
  \<^verbatim>\<open>AttributeError\<close>.  So every run that reaches the pruning step ends with that
  error, and no run renders a candidate or returns.
\<close>

theorem tweet_status_attribute_error:
  "drop_recent recently_tweeted (all_patterns_all_subclasses TweetPattern True) h content
     = Inl AttributeError
   \<and> (\<forall>content. add_extra_content repo_data = Inr content \<longrightarrow>
         tweet_status random_choice h repo_data recently_tweeted = Inl AttributeError)
   \<and> (\<forall>out. tweet_status random_choice h repo_data recently_tweeted \<noteq> Inr out)"
proof -
  have d: "drop_recent ms (all_patterns_all_subclasses TweetPattern True) h c = Inl AttributeError"
    for ms c
    by (simp add: drop_recent_def all_patterns_all_subclasses_def)
  have t: "tweet_status random_choice h repo_data recently_tweeted =
             and_then (add_extra_content repo_data) (\<lambda>content. Inl AttributeError)"
    by (cases "add_extra_content repo_data")
       (simp_all add: tweet_status_def Let_def d and_then_def)
  show ?thesis
    by (simp add: d t and_then_def split: sum.splits)
qed

theorem tweet_status_attribute_error_witness:
  "add_extra_content [(''a'', octo)] =
     Inr [(''a'', octo @ [(''uuid'', PStr ''a''), (''name'', PStr ''octo''),
                         (''url'', PStr ''repohealth.info/report/a'')])]
   \<and> tweet_status hd (\<lambda>a. new_pattern TweetPattern []) [(''a'', octo)] [] = Inl AttributeError"
proof -
  have a: "add_extra_content [(''a'', octo)] =
     Inr [(''a'', octo @ [(''uuid'', PStr ''a''), (''name'', PStr ''octo''),
                         (''url'', PStr ''repohealth.info/report/a'')])]"
    by (simp add: add_extra_content_def add_extra_def octo_def keys_def payload_stat_def
        dict_get_def and_then_def cons_ok_def)
  note t = tweet_status_attribute_error
             [of "[]" "\<lambda>a. new_pattern TweetPattern []" "[]" "[(''a'', octo)]" hd,
              THEN conjunct2, THEN conjunct1, rule_format, OF a]
  from a t show ?thesis by (rule conjI)
qed

lemma and_then_simps [simp]:
  "and_then (Inl e) f = Inl e"
  "and_then (Inr x) f = f x"
  by (simp_all add: and_then_def)

lemma cons_ok_simps [simp]:
  "cons_ok x (Inl e) = Inl e"
  "cons_ok x (Inr xs) = Inr (x # xs)"
  by (simp_all add: cons_ok_def)

lemma merge_kwargs_shared:
  "set (keys a) \<inter> set (keys b) \<noteq> {} \<Longrightarrow> merge_kwargs a b = Inl TypeError"
  by (auto simp: merge_kwargs_def list_ex_iff)

lemma merge_kwargs_disjoint:
  "set (keys a) \<inter> set (keys b) = {} \<Longrightarrow> merge_kwargs a b = Inr (a @ b)"
  by (auto simp: merge_kwargs_def list_ex_iff)

text \<open>
  Claim C3, as amended.  When \<^verbatim>\<open>context\<close> and \<^verbatim>\<open>extra_context\<close> share a key,
  \<^verbatim>\<open>format(context, extra_context)\<close> raises \<^verbatim>\<open>TypeError\<close>: the two dicts are passed
  as keyword arguments of one call, and a repeated keyword is an error, so no value
  shadows another.  When they share no key, the template is rendered with the values
  of both.
\<close>

theorem format_shared_key_type_error:
  "(set (keys context) \<inter> set (keys extra_context) \<noteq> {} \<longrightarrow>
      format self context (Some extra_context) = Inl TypeError)
   \<and> (set (keys context) \<inter> set (keys extra_context) = {} \<longrightarrow>
      format self context (Some extra_context)
        = str_format (pattern self) (extra_context @ context))"
proof (intro conjI impI)
  assume "set (keys context) \<inter> set (keys extra_context) \<noteq> {}"
  then have "set (keys extra_context) \<inter> set (keys context) \<noteq> {}" by blast
  then show "format self context (Some extra_context) = Inl TypeError"
    by (simp add: format_def merge_kwargs_shared)
next
  assume "set (keys context) \<inter> set (keys extra_context) = {}"
  then have "set (keys extra_context) \<inter> set (keys context) = {}" by blast
  then show "format self context (Some extra_context)
        = str_format (pattern self) (extra_context @ context)"
    by (simp add: format_def merge_kwargs_disjoint)
qed

lemma parse_repo_tweet:
  "parse_format ''Just generated a health report for {name} at {url}'' =
     map Lit ''Just generated a health report for '' @ [Fld ''name'']
     @ map Lit '' at '' @ [Fld ''url'']"
  by (simp add: parse_format_def keyword_name_def is_digit_def)

text \<open>
  Claim C3 as stated fails: with \<^verbatim>\<open>name\<close> in both dicts the call does not return the
  template rendered with the context's value, it raises \<^verbatim>\<open>TypeError\<close>.
\<close>

theorem format_shared_key_counterexample:
  "format repo_tweet [(''name'', PStr ''octo''), (''url'', PStr ''r.io/a'')]
      (Some [(''name'', PStr ''global'')]) = Inl TypeError"
  by (simp add: format_def merge_kwargs_def keys_def)

theorem format_shared_key_type_error_witness:
  "set (keys [(''url'', PStr ''r.io/a'')]) \<inter> set (keys [(''url'', PStr ''x''), (''name'', PStr ''n'')]) \<noteq> {}
   \<and> format repo_tweet [(''url'', PStr ''r.io/a'')] (Some [(''url'', PStr ''x''), (''name'', PStr ''n'')]) = Inl TypeError
   \<and> set (keys [(''url'', PStr ''r.io/a'')]) \<inter> set (keys [(''name'', PStr ''n'')]) = {}
   \<and> format repo_tweet [(''url'', PStr ''r.io/a'')] (Some [(''name'', PStr ''n'')])
       = Inr ''Just generated a health report for n at r.io/a''"
proof -
  have a: "set (keys [(''url'', PStr ''r.io/a'')]) \<inter> set (keys [(''url'', PStr ''x''), (''name'', PStr ''n'')]) \<noteq> {}"
    by (simp add: keys_def)
  have b: "set (keys [(''url'', PStr ''r.io/a'')]) \<inter> set (keys [(''name'', PStr ''n'')]) = {}"
    by (simp add: keys_def)
  note t1 = format_shared_key_type_error [of "[(''url'', PStr ''r.io/a'')]" "[(''url'', PStr ''x''), (''name'', PStr ''n'')]" repo_tweet, THEN conjunct1, rule_format, OF a]
  note t2 = format_shared_key_type_error [of "[(''url'', PStr ''r.io/a'')]" "[(''name'', PStr ''n'')]" repo_tweet, THEN conjunct2, rule_format, OF b]
  have c: "str_format (pattern repo_tweet) ([(''name'', PStr ''n'')] @ [(''url'', PStr ''r.io/a'')])
      = Inr ''Just generated a health report for n at r.io/a''"
    by (simp add: repo_tweet_def new_pattern_def str_format_def parse_repo_tweet dict_get_def)
  from a t1 b t2 c show ?thesis by simp
qed














lemma re_match_first_use:
  "compiled_regexp self = None \<Longrightarrow>
   re_match self tweet =
     and_then (compile_pattern (pattern self)) (\<lambda>(r, fs). Inr (rmatch r tweet, compiled self r fs))"
  by (simp add: re_match_def compile_pattern_def compiled_def and_then_def
      split: sum.splits prod.splits)

lemma re_match_later_use:
  "compiled_regexp self = Some r \<Longrightarrow> re_match self tweet = Inr (rmatch r tweet, self)"
  by (simp add: re_match_def)

lemma compile_short:
  "compile_pattern ''{name} at {url}'' = Inr (short_rx, [''name'', ''url''])"
  by (simp add: compile_pattern_def regexp_format_def escape_def
      replace_char_def keyword_name_def is_digit_def get_field_def re_compile_def
      bslash_def repeat_follows_def short_rx_def)

lemma rmatch_short:
  "rmatch short_rx ''octo at r.io/a'' = Some [''octo'', ''r.io/a'']"
  by (simp add: short_rx_def newline_def)

lemma re_match_seq_later_use:
  "compiled_regexp self = Some r \<Longrightarrow> re_match_seq self tweets = Inr (map (rmatch r) tweets, self)"
  by (induction tweets) (simp_all add: re_match_later_use)

lemma compile_nrepos:
  "compile_pattern ''I recently generated reports for #{names[0]} and #{names[1]} on {repohealth_url}''
     = Inr (nrepos_rx, [''names[0]'', ''names[1]'', ''repohealth_url''])"
  by (simp add: compile_pattern_def regexp_format_def escape_def
      replace_char_def keyword_name_def is_digit_def get_field_def re_compile_def
      bslash_def repeat_follows_def nrepos_rx_def)

lemma rmatch_nrepos:
  "rmatch nrepos_rx ''I recently generated reports for #a and #b on repohealth.info''
     = Some [''a'', ''b'', ''repohealth.info'']"
  by (simp add: nrepos_rx_def newline_def)

lemma rmatch_nrepos_no: "rmatch nrepos_rx ''Try it'' = None"
  by (simp add: nrepos_rx_def)

text \<open>
  Claim C9.  While the attribute \<^verbatim>\<open>compiled_regexp\<close> does not exist, \<^verbatim>\<open>re_match\<close>
  computes the matcher and the field order from the template alone (\<open>compile_pattern\<close>
  of \<^verbatim>\<open>self.pattern\<close>, whatever the class), stores them and answers with that matcher.
  Once the attribute exists, \<^verbatim>\<open>re_match\<close> answers with the stored matcher, whatever
  it is, without reading the template, and leaves the instance as it is: in a sequence
  of calls on one instance the matcher is computed by the first call and all calls
  answer with it.  Two instances with the same template give the same answer on every
  string, also when one of them has been used before.
\<close>

theorem re_match_compiles_once:
  "(compiled_regexp self = None \<longrightarrow>
      re_match self tweet =
        (case compile_pattern (pattern self) of
           Inl e \<Rightarrow> Inl e
         | Inr (r, fs) \<Rightarrow>
             Inr (rmatch r tweet, self\<lparr>re_fields := Some fs, compiled_regexp := Some r\<rparr>)))
   \<and> (compiled_regexp self = Some r \<longrightarrow>
        re_match self tweet = Inr (rmatch r tweet, self)
        \<and> re_match_seq self tweets = Inr (map (rmatch r) tweets, self))
   \<and> (compiled_regexp self = None \<and> compile_pattern (pattern self) = Inr (r, fs) \<longrightarrow>
        re_match_seq self (tweet # tweets)
          = Inr (map (rmatch r) (tweet # tweets),
                 self\<lparr>re_fields := Some fs, compiled_regexp := Some r\<rparr>))
   \<and> (pattern a = pattern b \<and> compiled_regexp a = None \<and> compiled_regexp b = None \<longrightarrow>
        map_sum id fst (re_match a tweet) = map_sum id fst (re_match b tweet))
   \<and> (pattern a = pattern b \<and> compiled_regexp a = None \<and> compiled_regexp b = None
        \<and> re_match a tweet = Inr (m, a') \<longrightarrow>
        map_sum id fst (re_match a' tweet') = map_sum id fst (re_match b tweet'))"
proof (intro conjI impI)
  assume n: "compiled_regexp self = None"
  show "re_match self tweet =
        (case compile_pattern (pattern self) of
           Inl e \<Rightarrow> Inl e
         | Inr (r, fs) \<Rightarrow>
             Inr (rmatch r tweet, self\<lparr>re_fields := Some fs, compiled_regexp := Some r\<rparr>))"
    unfolding re_match_first_use [OF n]
    by (cases "compile_pattern (pattern self)") (auto simp: compiled_def)
next
  assume s: "compiled_regexp self = Some r"
  show "re_match self tweet = Inr (rmatch r tweet, self)"
    by (rule re_match_later_use [OF s])
  show "re_match_seq self tweets = Inr (map (rmatch r) tweets, self)"
    by (rule re_match_seq_later_use [OF s])
next
  assume a: "compiled_regexp self = None \<and> compile_pattern (pattern self) = Inr (r, fs)"
  let ?s = "self\<lparr>re_fields := Some fs, compiled_regexp := Some r\<rparr>"
  from a have f: "re_match self tweet = Inr (rmatch r tweet, ?s)"
    by (simp add: re_match_first_use compiled_def)
  have "compiled_regexp ?s = Some r" by simp
  from re_match_seq_later_use [OF this, of tweets] f
  show "re_match_seq self (tweet # tweets) = Inr (map (rmatch r) (tweet # tweets), ?s)"
    by simp
next
  assume "pattern a = pattern b \<and> compiled_regexp a = None \<and> compiled_regexp b = None"
  then show "map_sum id fst (re_match a tweet) = map_sum id fst (re_match b tweet)"
    by (cases "compile_pattern (pattern b)") (auto simp: re_match_first_use)
next
  assume h: "pattern a = pattern b \<and> compiled_regexp a = None \<and> compiled_regexp b = None
        \<and> re_match a tweet = Inr (m, a')"
  then have fu: "and_then (compile_pattern (pattern b))
           (\<lambda>(r, fs). Inr (rmatch r tweet, compiled a r fs)) = Inr (m, a')"
    using re_match_first_use [of a tweet] by simp
  then obtain r fs where c: "compile_pattern (pattern b) = Inr (r, fs)"
    by (cases "compile_pattern (pattern b)") auto
  with fu have "a' = compiled a r fs" by simp
  then have "compiled_regexp a' = Some r" by (simp add: compiled_def)
  from re_match_later_use [OF this] h c
  show "map_sum id fst (re_match a' tweet') = map_sum id fst (re_match b tweet')"
    by (simp add: re_match_first_use)
qed

theorem re_match_compiles_once_witness:
  "nrepos_tweet \<in> set (all_patterns NReposInCachePattern)
   \<and> compiled_regexp nrepos_tweet = None
   \<and> compile_pattern (pattern nrepos_tweet)
       = Inr (nrepos_rx, [''names[0]'', ''names[1]'', ''repohealth_url''])
   \<and> re_match nrepos_tweet ''I recently generated reports for #a and #b on repohealth.info''
       = Inr (Some [''a'', ''b'', ''repohealth.info''],
              nrepos_tweet\<lparr>re_fields := Some [''names[0]'', ''names[1]'', ''repohealth_url''],
                            compiled_regexp := Some nrepos_rx\<rparr>)
   \<and> re_match_seq nrepos_tweet
        [''I recently generated reports for #a and #b on repohealth.info'', ''Try it'']
       = Inr ([Some [''a'', ''b'', ''repohealth.info''], None],
              nrepos_tweet\<lparr>re_fields := Some [''names[0]'', ''names[1]'', ''repohealth_url''],
                            compiled_regexp := Some nrepos_rx\<rparr>)
   \<and> compiled_regexp odd_tweet = Some try_rx
   \<and> re_match odd_tweet ''Try it'' = Inr (Some [''it''], odd_tweet)
   \<and> re_match_seq odd_tweet [''Try it'', ''octo at r.io/a'']
       = Inr ([Some [''it''], None], odd_tweet)
   \<and> pattern short_tweet = pattern short_forks
   \<and> compiled_regexp short_tweet = None \<and> compiled_regexp short_forks = None
   \<and> map_sum id fst (re_match short_tweet ''octo at r.io/a'')
       = map_sum id fst (re_match short_forks ''octo at r.io/a'')
   \<and> re_match short_tweet ''octo at r.io/a''
       = Inr (Some [''octo'', ''r.io/a''], compiled short_tweet short_rx [''name'', ''url''])
   \<and> map_sum id fst (re_match (compiled short_tweet short_rx [''name'', ''url'']) ''cat at x'')
       = map_sum id fst (re_match short_forks ''cat at x'')"
proof -
  let ?msg = "''I recently generated reports for #a and #b on repohealth.info''"
  let ?n' = "nrepos_tweet\<lparr>re_fields := Some [''names[0]'', ''names[1]'', ''repohealth_url''],
                            compiled_regexp := Some nrepos_rx\<rparr>"
  have g0: "nrepos_tweet \<in> set (all_patterns NReposInCachePattern)"
    by (simp add: all_patterns_def class_patterns_def nrepos_tweet_def)
  have g1: "compiled_regexp nrepos_tweet = None"
    by (simp add: nrepos_tweet_def new_pattern_def)
  have g2: "compile_pattern (pattern nrepos_tweet)
       = Inr (nrepos_rx, [''names[0]'', ''names[1]'', ''repohealth_url''])"
    unfolding nrepos_tweet_def new_pattern_def by (simp only: tweet_pattern.simps compile_nrepos)
  note t = re_match_compiles_once
     [where self = nrepos_tweet and tweet = ?msg and r = nrepos_rx and tweets = "[''Try it'']"
        and fs = "[''names[0]'', ''names[1]'', ''repohealth_url'']"]
  from t [THEN conjunct1, rule_format, OF g1]
  have g3: "re_match nrepos_tweet ?msg = Inr (Some [''a'', ''b'', ''repohealth.info''], ?n')"
    unfolding g2 by (simp only: sum.case prod.case rmatch_nrepos)
  from t [THEN conjunct2, THEN conjunct2, THEN conjunct1, rule_format, OF conjI [OF g1 g2]]
  have g4: "re_match_seq nrepos_tweet [?msg, ''Try it'']
       = Inr ([Some [''a'', ''b'', ''repohealth.info''], None], ?n')"
    by (simp only: list.map rmatch_nrepos rmatch_nrepos_no)
  have o1: "compiled_regexp odd_tweet = Some try_rx" by (simp add: odd_tweet_def)
  note u = re_match_compiles_once
     [where self = odd_tweet and tweet = "''Try it''" and r = try_rx
        and tweets = "[''Try it'', ''octo at r.io/a'']",
      THEN conjunct2, THEN conjunct1, rule_format, OF o1]
  have r1: "rmatch try_rx ''Try it'' = Some [''it'']" by (simp add: try_rx_def newline_def)
  have r2: "rmatch try_rx ''octo at r.io/a'' = None" by (simp add: try_rx_def)
  from u [THEN conjunct1] have o2: "re_match odd_tweet ''Try it'' = Inr (Some [''it''], odd_tweet)"
    by (simp only: r1)
  from u [THEN conjunct2]
  have o3: "re_match_seq odd_tweet [''Try it'', ''octo at r.io/a'']
       = Inr ([Some [''it''], None], odd_tweet)"
    by (simp only: list.map r1 r2)
  have h1: "compiled_regexp short_tweet = None"
    by (simp add: short_tweet_def new_pattern_def)
  have h3: "pattern short_tweet = pattern short_forks"
    by (simp add: short_tweet_def short_forks_def new_pattern_def)
  have h4: "compiled_regexp short_forks = None"
    by (simp add: short_forks_def new_pattern_def)
  have h2: "re_match short_tweet ''octo at r.io/a''
       = Inr (Some [''octo'', ''r.io/a''], compiled short_tweet short_rx [''name'', ''url''])"
    using h1 by (simp add: re_match_first_use compile_short rmatch_short
        short_tweet_def new_pattern_def)
  note v = re_match_compiles_once
     [where a = short_tweet and b = short_forks and tweet = "''octo at r.io/a''"
        and m = "Some [''octo'', ''r.io/a'']"
        and a' = "compiled short_tweet short_rx [''name'', ''url'']" and tweet' = "''cat at x''"]
  note e1 = v [THEN conjunct2, THEN conjunct2, THEN conjunct2, THEN conjunct1, rule_format,
               OF conjI [OF h3 conjI [OF h1 h4]]]
  note e2 = v [THEN conjunct2, THEN conjunct2, THEN conjunct2, THEN conjunct2, rule_format,
               OF conjI [OF h3 conjI [OF h1 conjI [OF h4 h2]]]]
  from g0 g1 g2 g3 g4 o1 o2 o3 h3 h1 h4 e1 h2 e2 show ?thesis by (intro conjI)
qed

lemma find_record_find:
  assumes "\<forall>rec \<in> set content. \<exists>s. str_format (''{'' @ f @ ''}'') (snd rec) = Inr s"
  shows "find_record f g content = Inr (map_option fst (List.find (field_is f g) content))"
  using assms
proof (induction content)
  case Nil
  then show ?case by simp
next
  case (Cons rec content)
  obtain uuid c where rec: "rec = (uuid, c)" by (cases rec)
  from Cons.prems obtain s where s: "str_format (''{'' @ f @ ''}'') c = Inr s"
    by (auto simp: rec)
  from Cons have IH: "find_record f g content
      = Inr (map_option fst (List.find (field_is f g) content))" by simp
  have hit: "field_is f g rec \<longleftrightarrow> s = g" using s by (simp add: rec field_is_def)
  show ?case
  proof (cases "s = g")
    case True
    with hit s show ?thesis by (simp add: rec)
  next
    case False
    with hit s IH show ?thesis by (simp add: rec)
  qed
qed

lemma find_None_iff_all: "List.find P xs = None \<longleftrightarrow> (\<forall>x \<in> set xs. \<not> P x)"
  by (induction xs) auto

lemma supplies_Cons:
  "supplies (f # fs) content \<longleftrightarrow>
     (f \<in> set checkable \<longrightarrow>
        (\<forall>rec \<in> set content. \<exists>s. str_format (''{'' @ f @ ''}'') (snd rec) = Inr s))
     \<and> supplies fs content"
  by (auto simp: supplies_def)

lemma supplies_subset: "supplies fs content \<Longrightarrow> set fs' \<subseteq> set fs \<Longrightarrow> supplies fs' content"
  by (auto simp: supplies_def)


lemma retract_retracted:
  "supplies (map fst fgs) content \<Longrightarrow> retract fgs content = Inr (retracted fgs content)"
proof (induction fgs)
  case Nil
  show ?case by (simp add: retracted_def)
next
  case (Cons fg fgs)
  obtain f g where fg: "fg = (f, g)" by (cases fg)
  from Cons.prems have sup: "supplies (map fst fgs) content"
    and sf: "f \<in> set checkable \<longrightarrow>
        (\<forall>rec \<in> set content. \<exists>s. str_format (''{'' @ f @ ''}'') (snd rec) = Inr s)"
    by (simp_all add: fg supplies_Cons)
  note IH = Cons.IH [OF sup]
  show ?case
  proof (cases "f \<in> set checkable")
    case False
    with IH show ?thesis by (simp add: fg retracted_def)
  next
    case True
    with sf have "\<forall>rec \<in> set content. \<exists>s. str_format (''{'' @ f @ ''}'') (snd rec) = Inr s"
      by simp
    note fr = find_record_find [OF this, of g]
    show ?thesis
    proof (cases "List.find (field_is f g) content")
      case None
      then have "\<not> (\<exists>rec \<in> set content. field_is f g rec)"
        by (simp add: find_None_iff_all)
      with None True IH fr show ?thesis by (simp add: fg retracted_def)
    next
      case (Some rec)
      then have "\<exists>rec \<in> set content. field_is f g rec"
        by (metis find_None_iff_all option.distinct(1))
      with Some True fr show ?thesis by (simp add: fg retracted_def)
    qed
  qed
qed

lemma find_record_none:
  "\<forall>x \<in> set content. \<exists>s. str_format (''{'' @ f @ ''}'') (snd x) = Inr s \<and> s \<noteq> g \<Longrightarrow>
     find_record f g content = Inr None"
proof (induction content)
  case Nil
  show ?case by simp
next
  case (Cons rec content)
  obtain uuid c where rec: "rec = (uuid, c)" by (cases rec)
  from Cons.prems obtain s where "str_format (''{'' @ f @ ''}'') c = Inr s" "s \<noteq> g"
    by (auto simp: rec)
  moreover from Cons have "find_record f g content = Inr None" by simp
  ultimately show ?case by (simp add: rec)
qed

lemma find_record_error:
  "\<forall>x \<in> set cpre. \<exists>s. str_format (''{'' @ f @ ''}'') (snd x) = Inr s \<and> s \<noteq> g \<Longrightarrow>
   str_format (''{'' @ f @ ''}'') (snd rec) = Inl e \<Longrightarrow>
     find_record f g (cpre @ rec # cpost) = Inl e"
proof (induction cpre)
  case Nil
  then show ?case by (cases rec) simp
next
  case (Cons x cpre)
  obtain uuid c where x: "x = (uuid, c)" by (cases x)
  from Cons.prems(1) obtain s where "str_format (''{'' @ f @ ''}'') c = Inr s" "s \<noteq> g"
    by (auto simp: x)
  moreover from Cons have "find_record f g (cpre @ rec # cpost) = Inl e" by simp
  ultimately show ?case by (simp add: x)
qed

lemma retract_error:
  "\<forall>(f', g') \<in> set fpre. f' \<in> set checkable \<longrightarrow>
      (\<forall>x \<in> set content. \<exists>s. str_format (''{'' @ f' @ ''}'') (snd x) = Inr s \<and> s \<noteq> g') \<Longrightarrow>
   f \<in> set checkable \<Longrightarrow> find_record f g content = Inl e \<Longrightarrow>
     retract (fpre @ (f, g) # fpost) content = Inl e"
proof (induction fpre)
  case Nil
  then show ?case by simp
next
  case (Cons fg fpre)
  obtain f' g' where fg: "fg = (f', g')" by (cases fg)
  from Cons have IH: "retract (fpre @ (f, g) # fpost) content = Inl e" by simp
  show ?case
  proof (cases "f' \<in> set checkable")
    case False
    with IH show ?thesis by (simp add: fg)
  next
    case True
    with Cons.prems(1)
    have "\<forall>x \<in> set content. \<exists>s. str_format (''{'' @ f' @ ''}'') (snd x) = Inr s \<and> s \<noteq> g'"
      by (simp add: fg)
    from find_record_none [OF this] True IH show ?thesis by (simp add: fg)
  qed
qed

lemma find_split:
  "List.find P xs = Some x \<Longrightarrow>
     \<exists>pre post. xs = pre @ x # post \<and> P x \<and> (\<forall>y \<in> set pre. \<not> P y)"
proof (induction xs)
  case Nil
  then show ?case by simp
next
  case (Cons a xs)
  show ?case
  proof (cases "P a")
    case True
    with Cons.prems have "a = x" by simp
    with True have "a # xs = [] @ x # xs \<and> P x \<and> (\<forall>y \<in> set []. \<not> P y)" by simp
    then show ?thesis by blast
  next
    case False
    with Cons obtain pre post where "xs = pre @ x # post" "P x" "\<forall>y \<in> set pre. \<not> P y"
      by auto
    with False have "a # xs = (a # pre) @ x # post \<and> P x \<and> (\<forall>y \<in> set (a # pre). \<not> P y)"
      by simp
    then show ?thesis by blast
  qed
qed

lemma dict_pop_split:
  assumes "distinct (keys (pre @ rec # post))"
  shows "dict_pop (pre @ rec # post) (fst rec) = pre @ post"
proof -
  from assms have "fst rec \<notin> fst ` set pre" and "fst rec \<notin> fst ` set post"
    by (auto simp: keys_def)
  then have "\<forall>x \<in> set pre. fst x \<noteq> fst rec" and "\<forall>x \<in> set post. fst x \<noteq> fst rec"
    by (metis image_eqI)+
  then show ?thesis by (simp add: dict_pop_def filter_id_conv)
qed



lemma compiled_idem:
  "compiled_regexp self = Some r \<Longrightarrow> re_fields self = Some fs \<Longrightarrow> compiled self r fs = self"
  by (simp add: compiled_def)

lemma re_match_cache_ok:
  "cache_ok self r fs \<Longrightarrow> re_match self tweet = Inr (rmatch r tweet, compiled self r fs)"
  by (auto simp: cache_ok_def re_match_first_use re_match_later_use compiled_idem)


lemma supplies_zip: "supplies fs content \<Longrightarrow> supplies (map fst (zip fs groups)) content"
proof (rule supplies_subset)
  show "set (map fst (zip fs groups)) \<subseteq> set fs" by (auto dest: set_zip_leftD)
qed

lemma drop_content_retract:
  assumes "is_repo_tweet (klass self)" and "cache_ok self r fs"
    and "rmatch r message = Some groups"
  shows "drop_content self message content
           = and_then (retract (zip fs groups) content)
               (\<lambda>content'. Inr (compiled self r fs, content'))"
  using assms by (simp add: drop_content_def re_match_cache_ok compiled_def)

lemma drop_content_repo_tweet:
  assumes "is_repo_tweet (klass self)" and "cache_ok self r fs"
    and "rmatch r message = Some groups" and "supplies fs content"
  shows "drop_content self message content
           = Inr (compiled self r fs, retracted (zip fs groups) content)"
  unfolding drop_content_retract [OF assms(1,2,3)]
  by (simp add: retract_retracted [OF supplies_zip [OF assms(4)]])


lemma render_checkable:
  "f \<in> set checkable \<Longrightarrow>
     str_format (''{'' @ f @ ''}'') c = and_then (dict_get c f) py_str"
proof -
  assume "f \<in> set checkable"
  then have p: "parse_format (''{'' @ f @ ''}'') = [Fld f]"
    by (auto simp: checkable_def parse_format_def keyword_name_def is_digit_def)
  show ?thesis
  proof (cases "dict_get c f")
    case (Inl e)
    then show ?thesis unfolding str_format_def p by simp
  next
    case (Inr v)
    then show ?thesis unfolding str_format_def p by (cases "py_str v") simp_all
  qed
qed

lemma find_Some_holds: "List.find P xs = Some x \<Longrightarrow> P x \<and> x \<in> set xs"
  by (induction xs) (auto split: if_splits)

text \<open>
  Claim C6, as amended.  \<^verbatim>\<open>RepoTweet.drop_content\<close> on a message that the pattern
  matches, for a pool (a dict, so with distinct keys).  When every record supplies
  the allow-listed fields that the template names: the fields are taken in template
  order with their groups; for the first allow-listed field that some record renders
  to its group, the first such record of the pool is removed and nothing else, so the
  pool has one entry less and the uuid of that record is gone; if no record renders an
  allow-listed field to its group, the pool is returned as it is; no error is raised.
  When a record that does not render an allow-listed field of the template is reached
  before a record that renders it to the group, the error of that rendering (a
  \<^verbatim>\<open>KeyError\<close> for a record without the field) is raised and nothing is removed.
\<close>

theorem drop_content_removes_first_match:
  assumes "is_repo_tweet (klass self)" and "cache_ok self r fs"
    and "rmatch r message = Some groups" and "distinct (keys content)"
  shows "(supplies fs content \<longrightarrow>
      (\<exists>self' content'.
         drop_content self message content = Inr (self', content') \<and>
         (case List.find (\<lambda>(f, g). f \<in> set checkable \<and> (\<exists>rec \<in> set content. field_is f g rec))
                 (zip fs groups) of
            None \<Rightarrow> content' = content
          | Some (f, g) \<Rightarrow>
              \<exists>pre rec post. content = pre @ rec # post \<and> field_is f g rec
                \<and> (\<forall>x \<in> set pre. \<not> field_is f g x) \<and> content' = pre @ post
                \<and> Suc (length content') = length content \<and> fst rec \<notin> set (keys content'))))
   \<and> (zip fs groups = fpre @ (f, g) # fpost \<and> f \<in> set checkable
        \<and> (\<forall>(f', g') \<in> set fpre. f' \<in> set checkable \<longrightarrow>
              (\<forall>x \<in> set content.
                  \<exists>s. str_format (''{'' @ f' @ ''}'') (snd x) = Inr s \<and> s \<noteq> g'))
        \<and> content = cpre @ rec # cpost
        \<and> (\<forall>x \<in> set cpre. \<exists>s. str_format (''{'' @ f @ ''}'') (snd x) = Inr s \<and> s \<noteq> g)
        \<and> str_format (''{'' @ f @ ''}'') (snd rec) = Inl e
      \<longrightarrow> drop_content self message content = Inl e)"
proof (intro conjI impI)
  assume sup: "supplies fs content"
  let ?P = "\<lambda>(f, g). f \<in> set checkable \<and> (\<exists>rec \<in> set content. field_is f g rec)"
  note dc = drop_content_repo_tweet [OF assms(1,2,3) sup]
  show "\<exists>self' content'.
         drop_content self message content = Inr (self', content') \<and>
         (case List.find ?P (zip fs groups) of
            None \<Rightarrow> content' = content
          | Some (f, g) \<Rightarrow>
              \<exists>pre rec post. content = pre @ rec # post \<and> field_is f g rec
                \<and> (\<forall>x \<in> set pre. \<not> field_is f g x) \<and> content' = pre @ post
                \<and> Suc (length content') = length content \<and> fst rec \<notin> set (keys content'))"
  proof (cases "List.find ?P (zip fs groups)")
    case None
    then have "retracted (zip fs groups) content = content" by (simp add: retracted_def)
    with dc None show ?thesis by simp
  next
    case (Some fg)
    obtain f g where fg: "fg = (f, g)" by (cases fg)
    from find_Some_holds [OF Some] have "\<exists>rec \<in> set content. field_is f g rec"
      by (simp add: fg)
    then obtain rec where fr: "List.find (field_is f g) content = Some rec"
      by (cases "List.find (field_is f g) content") (auto simp: find_None_iff_all)
    from find_split [OF fr] obtain pre post where
      sp: "content = pre @ rec # post" and hit: "field_is f g rec"
      and pre: "\<forall>y \<in> set pre. \<not> field_is f g y" by blast
    from assms(4) sp have d: "distinct (keys (pre @ rec # post))" by simp
    have r: "retracted (zip fs groups) content = pre @ post"
      using Some fr dict_pop_split [OF d] by (simp add: retracted_def fg sp)
    from d have nk: "fst rec \<notin> set (keys (pre @ post))" by (auto simp: keys_def)
    have len: "Suc (length (pre @ post)) = length content" by (simp add: sp)
    from sp hit pre nk len
    have "\<exists>pre' rec' post'. content = pre' @ rec' # post' \<and> field_is f g rec'
            \<and> (\<forall>x \<in> set pre'. \<not> field_is f g x) \<and> pre @ post = pre' @ post'
            \<and> Suc (length (pre @ post)) = length content \<and> fst rec' \<notin> set (keys (pre @ post))"
      by blast
    with dc r Some show ?thesis by (simp add: fg)
  qed
next
  assume a: "zip fs groups = fpre @ (f, g) # fpost \<and> f \<in> set checkable
        \<and> (\<forall>(f', g') \<in> set fpre. f' \<in> set checkable \<longrightarrow>
              (\<forall>x \<in> set content.
                  \<exists>s. str_format (''{'' @ f' @ ''}'') (snd x) = Inr s \<and> s \<noteq> g'))
        \<and> content = cpre @ rec # cpost
        \<and> (\<forall>x \<in> set cpre. \<exists>s. str_format (''{'' @ f @ ''}'') (snd x) = Inr s \<and> s \<noteq> g)
        \<and> str_format (''{'' @ f @ ''}'') (snd rec) = Inl e"
  then have z: "zip fs groups = fpre @ (f, g) # fpost" and fc: "f \<in> set checkable"
    and pre: "\<forall>(f', g') \<in> set fpre. f' \<in> set checkable \<longrightarrow>
              (\<forall>x \<in> set content.
                  \<exists>s. str_format (''{'' @ f' @ ''}'') (snd x) = Inr s \<and> s \<noteq> g')"
    and c: "content = cpre @ rec # cpost"
    and cp: "\<forall>x \<in> set cpre. \<exists>s. str_format (''{'' @ f @ ''}'') (snd x) = Inr s \<and> s \<noteq> g"
    and e: "str_format (''{'' @ f @ ''}'') (snd rec) = Inl e"
    by blast+
  from find_record_error [OF cp e, of cpost] have "find_record f g content = Inl e"
    unfolding c .
  from retract_error [OF pre fc this, of fpost]
  show "drop_content self message content = Inl e"
    unfolding drop_content_retract [OF assms(1,2,3)] z by simp
qed

lemma compile_repo:
  "compile_pattern ''Just generated a health report for {name} at {url}''
     = Inr (repo_rx, [''name'', ''url''])"
  by (simp add: compile_pattern_def regexp_format_def escape_def
      replace_char_def keyword_name_def is_digit_def get_field_def re_compile_def
      bslash_def repeat_follows_def repo_rx_def)

lemma cache_ok_repo_tweet: "cache_ok repo_tweet repo_rx [''name'', ''url'']"
  by (simp add: cache_ok_def repo_tweet_def new_pattern_def compile_repo)

lemma is_repo_tweet_repo_tweet: "is_repo_tweet (klass repo_tweet)"
  by (simp add: repo_tweet_def new_pattern_def is_repo_tweet_def)

lemma field_is_checkable:
  "f \<in> set checkable \<Longrightarrow>
     field_is f g rec \<longleftrightarrow> and_then (dict_get (snd rec) f) py_str = Inr g"
  unfolding field_is_def by (simp only: render_checkable)

lemma rmatch_repo_zebra:
  "rmatch repo_rx ''Just generated a health report for zebra at r.io/b''
     = Some [''zebra'', ''r.io/b'']"
  by (simp add: repo_rx_def newline_def)

lemma rmatch_repo_nowhere:
  "rmatch repo_rx ''Just generated a health report for zebra at nowhere''
     = Some [''zebra'', ''nowhere'']"
  by (simp add: repo_rx_def newline_def)

lemma rmatch_repo_cat:
  "rmatch repo_rx ''Just generated a health report for cat at x'' = Some [''cat'', ''x'']"
  by (simp add: repo_rx_def newline_def)

lemma url_checkable: "''url'' \<in> set checkable"
  by (simp add: checkable_def)

lemma name_checkable: "''name'' \<in> set checkable"
  by (simp add: checkable_def)

lemma render_name_url:
  "str_format ''{name}'' c = and_then (dict_get c ''name'') py_str"
  "str_format ''{url}'' c = and_then (dict_get c ''url'') py_str"
  using render_checkable [OF name_checkable, of c] render_checkable [OF url_checkable, of c]
  by simp_all

lemma drop_content_half_pool:
  assumes "is_repo_tweet (klass self)" and "cache_ok self repo_rx [''name'', ''url'']"
    and "rmatch repo_rx message = Some [n, u]" and "n \<noteq> ''octo''" and "n \<noteq> ''cat''"
  shows "drop_content self message half_pool = Inl (KeyError ''url'')"
  unfolding drop_content_retract [OF assms(1,2,3)] using assms(4,5)
  by (simp add: checkable_def half_pool_def render_name_url dict_get_def)

text \<open>
  Claim C6 as stated fails.  The first record of the pool has no \<^verbatim>\<open>url\<close>.  For a
  message whose \<^verbatim>\<open>url\<close> group is the \<^verbatim>\<open>url\<close> of the second record,
  \<^verbatim>\<open>drop_content\<close> does not remove that record: rendering \<^verbatim>\<open>{url}\<close> for the first
  record raises \<^verbatim>\<open>KeyError\<close>.  For a message that no record matches, the pool is not
  silently left unchanged: the same error is raised.
\<close>

theorem drop_content_removes_first_match_counterexample:
  "map_sum id fst (re_match repo_tweet ''Just generated a health report for zebra at r.io/b'')
     = Inr (Some [''zebra'', ''r.io/b''])
   \<and> field_is ''url'' ''r.io/b'' (''b'', [(''name'', PStr ''cat''), (''url'', PStr ''r.io/b'')])
   \<and> drop_content repo_tweet ''Just generated a health report for zebra at r.io/b'' half_pool
     = Inl (KeyError ''url'')
   \<and> map_sum id fst (re_match repo_tweet ''Just generated a health report for zebra at nowhere'')
     = Inr (Some [''zebra'', ''nowhere''])
   \<and> List.find (\<lambda>(f, g). f \<in> set checkable \<and> (\<exists>rec \<in> set half_pool. field_is f g rec))
       (zip [''name'', ''url''] [''zebra'', ''nowhere'']) = None
   \<and> drop_content repo_tweet ''Just generated a health report for zebra at nowhere'' half_pool
     = Inl (KeyError ''url'')"
proof (intro conjI)
  show "map_sum id fst (re_match repo_tweet ''Just generated a health report for zebra at r.io/b'')
     = Inr (Some [''zebra'', ''r.io/b''])"
    by (simp add: re_match_cache_ok [OF cache_ok_repo_tweet] rmatch_repo_zebra)
  show "field_is ''url'' ''r.io/b'' (''b'', [(''name'', PStr ''cat''), (''url'', PStr ''r.io/b'')])"
    by (simp add: field_is_def render_name_url dict_get_def)
  show "drop_content repo_tweet ''Just generated a health report for zebra at r.io/b'' half_pool
     = Inl (KeyError ''url'')"
    by (rule drop_content_half_pool
          [OF is_repo_tweet_repo_tweet cache_ok_repo_tweet rmatch_repo_zebra]) simp_all
  show "map_sum id fst (re_match repo_tweet ''Just generated a health report for zebra at nowhere'')
     = Inr (Some [''zebra'', ''nowhere''])"
    by (simp add: re_match_cache_ok [OF cache_ok_repo_tweet] rmatch_repo_nowhere)
  show "List.find (\<lambda>(f, g). f \<in> set checkable \<and> (\<exists>rec \<in> set half_pool. field_is f g rec))
       (zip [''name'', ''url''] [''zebra'', ''nowhere'']) = None"
    by (simp add: half_pool_def field_is_def render_name_url dict_get_def)
  show "drop_content repo_tweet ''Just generated a health report for zebra at nowhere'' half_pool
     = Inl (KeyError ''url'')"
    by (rule drop_content_half_pool
          [OF is_repo_tweet_repo_tweet cache_ok_repo_tweet rmatch_repo_nowhere]) simp_all
qed

lemma supplies_named_pool: "supplies [''name'', ''url''] named_pool"
  by (simp add: supplies_def named_pool_def render_name_url dict_get_def)

theorem drop_content_removes_first_match_witness:
  "is_repo_tweet (klass repo_tweet) \<and> cache_ok repo_tweet repo_rx [''name'', ''url'']
   \<and> rmatch repo_rx ''Just generated a health report for cat at x'' = Some [''cat'', ''x'']
   \<and> distinct (keys named_pool) \<and> supplies [''name'', ''url''] named_pool
   \<and> length named_pool = 3
   \<and> (\<exists>self' content'.
         drop_content repo_tweet ''Just generated a health report for cat at x'' named_pool
           = Inr (self', content')
         \<and> length content' = 2 \<and> ''b'' \<notin> set (keys content'))
   \<and> rmatch repo_rx ''Just generated a health report for zebra at r.io/b''
       = Some [''zebra'', ''r.io/b'']
   \<and> distinct (keys half_pool)
   \<and> str_format ''{url}'' (snd (''a'', [(''name'', PStr ''octo'')])) = Inl (KeyError ''url'')
   \<and> drop_content repo_tweet ''Just generated a health report for zebra at r.io/b'' half_pool
       = Inl (KeyError ''url'')"
proof -
  let ?msg = "''Just generated a health report for cat at x''"
  note h1 = is_repo_tweet_repo_tweet
  note h2 = cache_ok_repo_tweet
  note h3 = rmatch_repo_cat
  have h4: "distinct (keys named_pool)" by (simp add: named_pool_def keys_def)
  note h5 = supplies_named_pool
  note n = name_checkable
  have only: "fst rec = ''b''"
    if "rec \<in> set named_pool" and "field_is ''name'' ''cat'' rec" for rec
    using that unfolding field_is_checkable [OF n]
    by (auto simp: named_pool_def dict_get_def)
  have ex: "\<exists>rec \<in> set named_pool. field_is ''name'' ''cat'' rec"
    unfolding field_is_checkable [OF n] by (simp add: named_pool_def dict_get_def)
  have f: "List.find (\<lambda>(f, g). f \<in> set checkable \<and> (\<exists>rec \<in> set named_pool. field_is f g rec))
             (zip [''name'', ''url''] [''cat'', ''x'']) = Some (''name'', ''cat'')"
    using n ex by simp
  from drop_content_removes_first_match [OF h1 h2 h3 h4, THEN conjunct1, rule_format, OF h5]
  obtain self' content' where
    dc: "drop_content repo_tweet ?msg named_pool = Inr (self', content')"
    and c: "case List.find (\<lambda>(f, g). f \<in> set checkable \<and> (\<exists>rec \<in> set named_pool. field_is f g rec))
             (zip [''name'', ''url''] [''cat'', ''x'']) of
        None \<Rightarrow> content' = named_pool
      | Some (f, g) \<Rightarrow>
          \<exists>pre rec post. named_pool = pre @ rec # post \<and> field_is f g rec
            \<and> (\<forall>x \<in> set pre. \<not> field_is f g x) \<and> content' = pre @ post
            \<and> Suc (length content') = length named_pool \<and> fst rec \<notin> set (keys content')"
    by blast
  from c have "\<exists>pre rec post. named_pool = pre @ rec # post \<and> field_is ''name'' ''cat'' rec
            \<and> (\<forall>x \<in> set pre. \<not> field_is ''name'' ''cat'' x) \<and> content' = pre @ post
            \<and> Suc (length content') = length named_pool \<and> fst rec \<notin> set (keys content')"
    unfolding f by simp
  then obtain pre rec post where sp: "named_pool = pre @ rec # post"
    and hit: "field_is ''name'' ''cat'' rec"
    and len: "Suc (length content') = length named_pool"
    and nk: "fst rec \<notin> set (keys content')" by blast
  have "rec \<in> set (pre @ rec # post)" by simp
  then have "rec \<in> set named_pool" unfolding sp [symmetric] .
  from only [OF this hit] nk have b: "''b'' \<notin> set (keys content')" by simp
  have l3: "length named_pool = 3" by (simp add: named_pool_def)
  with len have "length content' = 2" by simp
  with dc b have w1: "\<exists>self' content'. drop_content repo_tweet ?msg named_pool = Inr (self', content')
         \<and> length content' = 2 \<and> ''b'' \<notin> set (keys content')" by blast
  let ?a = "(''a'', [(''name'', PStr ''octo'')]) :: string \<times> pycontext"
  let ?b = "(''b'', [(''name'', PStr ''cat''), (''url'', PStr ''r.io/b'')]) :: string \<times> pycontext"
  have k4: "distinct (keys half_pool)" by (simp add: half_pool_def keys_def)
  have z: "zip [''name'', ''url''] [''zebra'', ''r.io/b'']
             = [(''name'', ''zebra'')] @ (''url'', ''r.io/b'') # []" by simp
  have p: "\<forall>(f', g') \<in> set [(''name'', ''zebra'')]. f' \<in> set checkable \<longrightarrow>
              (\<forall>x \<in> set half_pool.
                  \<exists>s. str_format (''{'' @ f' @ ''}'') (snd x) = Inr s \<and> s \<noteq> g')"
    by (simp add: half_pool_def render_name_url dict_get_def)
  have c2: "half_pool = [] @ ?a # [?b]" by (simp add: half_pool_def)
  have cp: "\<forall>x \<in> set []. \<exists>s. str_format (''{'' @ ''url'' @ ''}'') (snd x) = Inr s \<and> s \<noteq> ''r.io/b''"
    by simp
  have e: "str_format (''{'' @ ''url'' @ ''}'') (snd ?a) = Inl (KeyError ''url'')"
    by (simp add: render_name_url dict_get_def)
  have e': "str_format ''{url}'' (snd ?a) = Inl (KeyError ''url'')"
    by (simp add: render_name_url dict_get_def)
  from drop_content_removes_first_match
         [OF h1 h2 rmatch_repo_zebra k4, THEN conjunct2, rule_format,
          OF conjI [OF z conjI [OF url_checkable conjI [OF p conjI [OF c2 conjI [OF cp e]]]]]]
  have w2: "drop_content repo_tweet ''Just generated a health report for zebra at r.io/b'' half_pool
       = Inl (KeyError ''url'')" .
  from h1 h2 h3 h4 h5 l3 w1 rmatch_repo_zebra k4 e' w2 show ?thesis by (intro conjI)
qed





































end
